theory Spec2Isabelle
  imports Main "HOL-Library.Word"
begin

section \<open>JavaScript strings\<close>

text \<open>
  A JavaScript string is a sequence of 16-bit code units. String literals of the
  source are ASCII and are written \<open>js ''...''\<close>.
\<close>

type_synonym jschar = "16 word"
type_synonym jsstring = "jschar list"

definition js :: "string \<Rightarrow> jsstring" where
  "js s = map of_char s"

text \<open>\<^verbatim>\<open>s.startsWith(p)\<close>\<close>

definition startsWith :: "jsstring \<Rightarrow> jsstring \<Rightarrow> bool" where
  "startsWith s p = (take (length p) s = p)"

text \<open>
  Truthiness of a value of type \<^verbatim>\<open>string | undefined\<close>, as tested by
  \<^verbatim>\<open>if (v)\<close>, \<^verbatim>\<open>!v\<close> and \<^verbatim>\<open>v || w\<close>: \<^verbatim>\<open>undefined\<close>, \<^verbatim>\<open>null\<close> and the
  empty string are falsy.
\<close>

definition truthy :: "jsstring option \<Rightarrow> bool" where
  "truthy v = (case v of None \<Rightarrow> False | Some s \<Rightarrow> s \<noteq> [])"

subsection \<open>The regular expression \<^verbatim>\<open>/size=[^&]+$/\<close>\<close>

text \<open>
  The expression has no flags, so \<^verbatim>\<open>$\<close> is the end of the string and \<^verbatim>\<open>[^&]\<close>
  is any code unit but the ampersand. A match starts at a position where the
  rest of the string is \<^verbatim>\<open>size=\<close> followed by one or more code units, none of
  them an ampersand; \<^verbatim>\<open>match\<close> and \<^verbatim>\<open>replace\<close> take the leftmost such position.
\<close>

definition size_param_here :: "jsstring \<Rightarrow> bool" where
  "size_param_here s =
     (take 5 s = js ''size='' \<and> drop 5 s \<noteq> [] \<and> of_char CHR ''&'' \<notin> set (drop 5 s))"

text \<open>\<^verbatim>\<open>s.match(/size=[^&]+$/)\<close> is not null.\<close>

fun match_size :: "jsstring \<Rightarrow> bool" where
  "match_size [] = False"
| "match_size (c # cs) = (if size_param_here (c # cs) then True else match_size cs)"

text \<open>\<^verbatim>\<open>s.replace(/size=[^&]+$/, 'size=full')\<close>\<close>

fun replace_size :: "jsstring \<Rightarrow> jsstring" where
  "replace_size [] = []"
| "replace_size (c # cs) =
     (if size_param_here (c # cs) then js ''size=full'' else c # replace_size cs)"

section \<open>The search response\<close>

text \<open>
  \<^verbatim>\<open>interface SearchResult { items?: { pagemap?: { cse_image?: { src: string }[] } }[] }\<close>
  An optional member is \<open>None\<close> when it is missing. By the interface every candidate
  has a string \<^verbatim>\<open>src\<close>, so that \<^verbatim>\<open>.src.startsWith\<close> is always defined.
\<close>

record image_entry =
  src :: jsstring

record page_map =
  cse_image :: "image_entry list option"

record result_item =
  pagemap :: "page_map option"

record SearchResult =
  items :: "result_item list option"

text \<open>\<^verbatim>\<open>item.pagemap?.cse_image?.[0]?.src\<close>\<close>

definition first_src :: "result_item \<Rightarrow> jsstring option" where
  "first_src it =
     (case pagemap it of
        None \<Rightarrow> None
      | Some pm \<Rightarrow>
          (case cse_image pm of
             None \<Rightarrow> None
           | Some [] \<Rightarrow> None
           | Some (c # _) \<Rightarrow> Some (src c)))"

text \<open>\<^verbatim>\<open>data.items?.[0]?.pagemap?.cse_image?.[0]?.src\<close>\<close>

definition first_image :: "SearchResult \<Rightarrow> jsstring option" where
  "first_image d =
     (case items d of
        None \<Rightarrow> None
      | Some [] \<Rightarrow> None
      | Some (it # _) \<Rightarrow> first_src it)"

text \<open>
  The callback \<^verbatim>\<open>item => item.pagemap?.cse_image?.[0]?.src.startsWith(p)\<close>: the
  optional chain gives \<^verbatim>\<open>undefined\<close>, which is falsy, when there is no first
  candidate.
\<close>

definition src_startsWith :: "jsstring \<Rightarrow> result_item \<Rightarrow> bool" where
  "src_startsWith p it = (case first_src it of None \<Rightarrow> False | Some s \<Rightarrow> startsWith s p)"

text \<open>
  \<^verbatim>\<open>data.items?.find(item => item.pagemap?.cse_image?.[0]?.src.startsWith(p))?.pagemap?.cse_image?.[0]?.src\<close>
\<close>

definition find_image :: "jsstring \<Rightarrow> SearchResult \<Rightarrow> jsstring option" where
  "find_image p d =
     (case items d of
        None \<Rightarrow> None
      | Some its \<Rightarrow>
          (case find (src_startsWith p) its of
             None \<Rightarrow> None
           | Some it \<Rightarrow> first_src it))"

section \<open>Image resolution\<close>

definition target_prefix :: jsstring where
  "target_prefix = js ''https://target.scene7.com''"

definition thd_prefix :: jsstring where
  "thd_prefix = js ''https://images.thdstatic''"

definition lowes_prefix :: jsstring where
  "lowes_prefix = js ''https://mobileimages.lowes.com/productimages/''"

definition target_params :: jsstring where
  "target_params = js ''?qlt=65&fmt=webp&hei=1200&wid=1200''"

text \<open>The template \<^verbatim>\<open>`${targetImage}?qlt=65&fmt=webp&hei=1200&wid=1200`\<close> of both pages.\<close>

definition append_target_params :: "jsstring \<Rightarrow> jsstring" where
  "append_target_params u = u @ target_params"

text \<open>The rewrite of the image found by prefix, for LOWES (\<^verbatim>\<open>csv/page.tsx\<close>, lines 313 to 319).\<close>

definition lowes_rewrite :: "jsstring \<Rightarrow> jsstring" where
  "lowes_rewrite lowesImage =
     (if match_size lowesImage then replace_size lowesImage else lowesImage)"

text \<open>The rewrite of the fallback image, for LOWES (lines 323 to 329).\<close>

definition lowes_fallback_rewrite :: "jsstring \<Rightarrow> jsstring" where
  "lowes_fallback_rewrite firstImage =
     (if startsWith firstImage lowes_prefix \<and> match_size firstImage
      then replace_size firstImage else firstImage)"

text \<open>
  The part of \<^verbatim>\<open>searchForImage\<close> (\<^verbatim>\<open>csv/page.tsx\<close>) that follows the parsing of the
  response, lines 272 to 332. \<open>None\<close> is the \<^verbatim>\<open>null\<close> of the source.
\<close>

definition searchForImage_resolve :: "jsstring \<Rightarrow> SearchResult \<Rightarrow> jsstring option" where
  "searchForImage_resolve store d =
     (if store = js ''TARGET'' then
        (let targetImage = find_image target_prefix d in
         if truthy targetImage then map_option append_target_params targetImage else None)
      else if store = js ''HOMEDEPOT'' then
        (let homeDepotImage = find_image thd_prefix d in
         if truthy homeDepotImage then homeDepotImage
         else (let firstImage = first_image d in
               if truthy firstImage then firstImage else None))
      else if store = js ''BESTBUY'' then
        (let bestBuyImage = first_image d in
         if truthy bestBuyImage then bestBuyImage else None)
      else if store = js ''LOWES'' then
        (let lowesImage = find_image lowes_prefix d in
         if truthy lowesImage then map_option lowes_rewrite lowesImage
         else (let firstImage = first_image d in
               if truthy firstImage then map_option lowes_fallback_rewrite firstImage
               else None))
      else None)"

text \<open>
  The value of \<^verbatim>\<open>foundImage\<close> in \<^verbatim>\<open>handleSearch\<close> (the search page), lines 71 to 89.
\<close>

definition handleSearch_found :: "jsstring \<Rightarrow> SearchResult \<Rightarrow> jsstring option" where
  "handleSearch_found store d =
     (if store = js ''TARGET'' then find_image target_prefix d
      else if store = js ''HOMEDEPOT'' then
        (let foundImage = find_image thd_prefix d in
         if \<not> truthy foundImage \<and> (case items d of None \<Rightarrow> False | Some its \<Rightarrow> its \<noteq> [])
         then first_image d else foundImage)
      else if store = js ''BESTBUY'' then first_image d
      else None)"

text \<open>
  The URL that \<^verbatim>\<open>handleSearch\<close> hands to the image proxy, lines 91 to 103; \<open>None\<close>
  when \<^verbatim>\<open>foundImage\<close> is falsy and the page reports that no image was found.
\<close>

definition handleSearch_resolved :: "jsstring \<Rightarrow> SearchResult \<Rightarrow> jsstring option" where
  "handleSearch_resolved store d =
     (let foundImage = handleSearch_found store d in
      if truthy foundImage then
        (if store = js ''TARGET'' then map_option append_target_params foundImage
         else foundImage)
      else None)"

text \<open>A result set given by the first candidate of each item.\<close>

definition item_of :: "jsstring list \<Rightarrow> result_item" where
  "item_of srcs = \<lparr>pagemap = Some \<lparr>cse_image = Some (map (\<lambda>s. \<lparr>src = s\<rparr>) srcs)\<rparr>\<rparr>"

definition results_of :: "jsstring list list \<Rightarrow> SearchResult" where
  "results_of xs = \<lparr>items = Some (map item_of xs)\<rparr>"


section \<open>Whitespace and numbers\<close>

text \<open>
  The code units that \<^verbatim>\<open>String.prototype.trim\<close> removes: the white space and the
  line terminators of ECMAScript.
\<close>

definition is_whitespace :: "jschar \<Rightarrow> bool" where
  "is_whitespace c =
     (c \<in> {0x9, 0xA, 0xB, 0xC, 0xD, 0x20, 0xA0, 0x1680, 0x2028, 0x2029, 0x202F, 0x205F,
            0x3000, 0xFEFF}
      \<or> (0x2000 \<le> c \<and> c \<le> 0x200A))"

definition trim :: "jsstring \<Rightarrow> jsstring" where
  "trim s = rev (dropWhile is_whitespace (rev (dropWhile is_whitespace s)))"

text \<open>A non-negative integer in a template literal: its decimal digits.\<close>

function num_str :: "nat \<Rightarrow> jsstring" where
  "num_str n =
     (if n < 10 then [of_nat (48 + n)] else num_str (n div 10) @ [of_nat (48 + n mod 10)])"
  by pat_completeness auto
termination
  by (relation "measure id") auto

declare num_str.simps [simp del]

text \<open>\<^verbatim>\<open>v || w\<close> for a \<^verbatim>\<open>string | undefined\<close> \<open>v\<close> and a string \<open>w\<close>.\<close>

definition or_else :: "jsstring option \<Rightarrow> jsstring \<Rightarrow> jsstring" where
  "or_else v w = (case v of None \<Rightarrow> w | Some s \<Rightarrow> if s = [] then w else s)"

section \<open>The platform\<close>

text \<open>
  A thrown exception or a rejected promise is \<open>Inl\<close> of the message of the error;
  \<open>Inr\<close> is the value returned or awaited.
\<close>

type_synonym 'a result = "jsstring + 'a"

type_synonym bytes = "8 word list"

record blob =
  blob_type :: jsstring
  blob_bytes :: bytes

text \<open>
  What the code reads of a \<^verbatim>\<open>Response\<close>: the status, the \<^verbatim>\<open>content-type\<close> header
  (\<open>None\<close> when \<^verbatim>\<open>headers.get\<close> gives \<^verbatim>\<open>null\<close>), and the three readers of the body.
\<close>

record response =
  status_code :: nat
  content_type :: "jsstring option"
  json :: "SearchResult result"
  blob :: "blob result"
  arrayBuffer :: "bytes result"

text \<open>\<^verbatim>\<open>response.ok\<close>: the status is in the range 200 to 299.\<close>

definition ok :: "response \<Rightarrow> bool" where
  "ok r = (200 \<le> status_code r \<and> status_code r \<le> 299)"

text \<open>\<^verbatim>\<open>fetch(url)\<close>: the network, as a function of the URL requested.\<close>

type_synonym network = "jsstring \<Rightarrow> response result"

text \<open>
  The entries of a JSZip object, in the order of its \<^verbatim>\<open>files\<close>: an entry is a file
  with its data or a folder, under its full name.
\<close>

datatype zip_entry = FileEntry blob | FolderEntry

type_synonym zip_entries = "(jsstring \<times> zip_entry) list"

text \<open>
  The library functions the CSV page calls. \<^verbatim>\<open>encodeURIComponent\<close> throws on a lone
  surrogate; \<^verbatim>\<open>generateAsync\<close> is the one of JSZip, given the entries of the archive.
\<close>

record platform =
  encodeURIComponent :: "jsstring \<Rightarrow> jsstring result"
  generateAsync :: "zip_entries \<Rightarrow> blob result"
  createObjectURL :: "blob \<Rightarrow> jsstring"

section \<open>The CSV page\<close>

datatype status_kind = Idle | Processing | Downloading | Complete | Error

record ProcessingStatus =
  current :: nat
  total :: nat
  currentItem :: jsstring
  status :: status_kind
  message :: jsstring
  downloadUrl :: "jsstring option"

type_synonym ParsedRow = "jsstring \<Rightarrow> jsstring option"

text \<open>
  The state of a run of \<^verbatim>\<open>processCSV\<close>: the two state variables of the component
  that it sets, the entries of its JSZip object and the URLs it has given to
  \<^verbatim>\<open>fetch\<close>, oldest first.
\<close>

record csv_state =
  processingStatus :: ProcessingStatus
  isProcessing :: bool
  zip_files :: zip_entries
  requests :: "jsstring list"

text \<open>
  \<^verbatim>\<open>searchForImage(query)\<close>. The two literals of lines 259 and 260 are the
  parameters \<open>apiKey\<close> and \<open>cx\<close>. The result is paired with the log of requests.
\<close>

definition searchForImage ::
  "platform \<Rightarrow> network \<Rightarrow> jsstring \<Rightarrow> jsstring \<Rightarrow> jsstring \<Rightarrow> jsstring \<Rightarrow> jsstring list
     \<Rightarrow> jsstring option result \<times> jsstring list" where
  "searchForImage p net apiKey cx store query log =
     (case encodeURIComponent p query of
        Inl e \<Rightarrow> (Inl e, log)
      | Inr encodedQuery \<Rightarrow>
          (let url = js ''https://www.googleapis.com/customsearch/v1?key='' @ apiKey
                     @ js ''&cx='' @ cx @ js ''&q='' @ encodedQuery;
               log' = log @ [url]
           in case net url of
                Inl e \<Rightarrow> (Inl e, log')
              | Inr response \<Rightarrow>
                  if \<not> ok response
                  then (Inl (js ''API request failed with status ''
                             @ num_str (status_code response)), log')
                  else (case json response of
                          Inl e \<Rightarrow> (Inl e, log')
                        | Inr data \<Rightarrow> (Inr (searchForImage_resolve store data), log'))))"

text \<open>The column of the identifier, lines 91 to 100; empty for any other store.\<close>

definition idColumn :: "jsstring \<Rightarrow> jsstring" where
  "idColumn store =
     (if store = js ''TARGET'' then js ''TCIN''
      else if store = js ''BESTBUY'' then js ''Model''
      else if store = js ''HOMEDEPOT'' then js ''Item Description''
      else if store = js ''LOWES'' then js ''Model''
      else [])"

text \<open>
  The filter of line 108:
  \<^verbatim>\<open>row[idColumnName] && row[idColumnName].toString().trim() !== ""\<close>
\<close>

definition valid_row :: "jsstring \<Rightarrow> ParsedRow \<Rightarrow> bool" where
  "valid_row idColumnName row =
     (case row idColumnName of None \<Rightarrow> False | Some v \<Rightarrow> v \<noteq> [] \<and> trim v \<noteq> [])"

text \<open>The query, lines 139 to 148.\<close>

definition csv_query :: "jsstring \<Rightarrow> jsstring \<Rightarrow> jsstring" where
  "csv_query store ident =
     (if store = js ''TARGET'' then js ''TARGET '' @ ident
      else if store = js ''BESTBUY'' then js ''BestBuy '' @ ident
      else if store = js ''HOMEDEPOT'' then js ''Home Depot '' @ ident
      else if store = js ''LOWES'' then js ''Lowes '' @ ident
      else ident)"

text \<open>\<^verbatim>\<open>s.replace(/_/g, " ")\<close>\<close>

definition replace_underscores :: "jsstring \<Rightarrow> jsstring" where
  "replace_underscores s = map (\<lambda>c. if c = of_char CHR ''_'' then of_char CHR '' '' else c) s"

text \<open>The name of the entry of the archive, lines 180 to 192.\<close>

definition filename :: "ParsedRow \<Rightarrow> jsstring" where
  "filename row =
     (let model = or_else (row (js ''Model'')) [];
          item_desc = or_else (row (js ''Item Description'')) [];
          unit_retail = or_else (row (js ''Unit Retail'')) [];
          brand = or_else (row (js ''Brand'')) (or_else (row (js ''Manufacturer'')) [])
      in replace_underscores model @ js ''_'' @ replace_underscores item_desc @ js ''_''
         @ replace_underscores unit_retail @ js ''_'' @ replace_underscores brand
         @ js ''.webp'')"

subsection \<open>Adding a file to the archive\<close>

text \<open>
  \<^verbatim>\<open>zip.file(name, data)\<close> is \<^verbatim>\<open>fileAdd\<close> of JSZip 3 with its default options, among
  them \<^verbatim>\<open>createFolders: true\<close>: a name with a slash gets a folder entry for each of
  its parent paths that has none yet.
\<close>

text \<open>\<^verbatim>\<open>path.lastIndexOf(c)\<close>; \<open>None\<close> is the \<^verbatim>\<open>-1\<close> of the source.\<close>

fun lastIndexOf :: "jschar \<Rightarrow> jsstring \<Rightarrow> nat option" where
  "lastIndexOf c [] = None"
| "lastIndexOf c (x # xs) =
     (case lastIndexOf c xs of
        Some i \<Rightarrow> Some (i + 1)
      | None \<Rightarrow> if x = c then Some 0 else None)"

text \<open>\<^verbatim>\<open>path.slice(-1) === '/'\<close>\<close>

definition ends_with_slash :: "jsstring \<Rightarrow> bool" where
  "ends_with_slash path = (path \<noteq> [] \<and> last path = of_char CHR ''/'')"

text \<open>\<^verbatim>\<open>parentFolder(path)\<close>: the parent folder, or the empty string.\<close>

definition parentFolder :: "jsstring \<Rightarrow> jsstring" where
  "parentFolder path =
     (let path' = (if ends_with_slash path then butlast path else path) in
      case lastIndexOf (of_char CHR ''/'') path' of
        None \<Rightarrow> []
      | Some lastSlash \<Rightarrow> if lastSlash > 0 then take lastSlash path' else [])"

text \<open>\<^verbatim>\<open>forceTrailingSlash(path)\<close>\<close>

definition forceTrailingSlash :: "jsstring \<Rightarrow> jsstring" where
  "forceTrailingSlash path = (if ends_with_slash path then path else path @ js ''/'')"

text \<open>
  \<^verbatim>\<open>this.files[name] = object\<close>: new data for the entry of that name, which keeps its
  place, or a new last entry.
\<close>

fun files_put :: "jsstring \<Rightarrow> zip_entry \<Rightarrow> zip_entries \<Rightarrow> zip_entries" where
  "files_put name e [] = [(name, e)]"
| "files_put name e ((k, v) # fs) =
     (if k = name then (name, e) # fs else (k, v) # files_put name e fs)"

text \<open>
  \<^verbatim>\<open>fileAdd(name, data, o)\<close> together with \<^verbatim>\<open>folderAdd(parent, true)\<close>, which adds the
  folder, by \<^verbatim>\<open>fileAdd\<close> with the option \<^verbatim>\<open>dir\<close>, unless an entry of its name exists.
\<close>

function fileAdd :: "jsstring \<Rightarrow> zip_entry \<Rightarrow> zip_entries \<Rightarrow> zip_entries" where
  "fileAdd name e fs =
     (let name' = (if e = FolderEntry then forceTrailingSlash name else name);
          parent = parentFolder name';
          fs' = (if parent \<noteq> [] then
                   (if forceTrailingSlash parent \<in> fst ` set fs then fs
                    else fileAdd (forceTrailingSlash parent) FolderEntry fs)
                 else fs)
      in files_put name' e fs')"
  by pat_completeness auto
termination
proof (relation "measure (\<lambda>(name, e, fs). length name)")
  show "wf (measure (\<lambda>(name, e, fs). length name))" by simp
next
  fix name :: jsstring and e :: zip_entry and fs :: zip_entries and x xa
  assume x: "x = (if e = FolderEntry then forceTrailingSlash name else name)"
    and xa: "xa = parentFolder x" and ne: "xa \<noteq> []"
  have li: "lastIndexOf c s = Some i \<Longrightarrow> i < length s \<and> s ! i = c" for c :: jschar and s i
  proof (induction s arbitrary: i)
    case Nil
    then show ?case by simp
  next
    case (Cons a s)
    then show ?case by (auto split: option.splits if_splits)
  qed
  define path where "path = (if ends_with_slash x then butlast x else x)"
  obtain k where k: "lastIndexOf (of_char CHR ''/'') path = Some k" "0 < k" "xa = take k path"
    using ne unfolding xa parentFolder_def path_def Let_def
    by (auto split: option.splits if_splits)
  have kl: "k < length path" "path ! k = of_char CHR ''/''" using li[OF k(1)] by auto
  have f: "length (forceTrailingSlash xa) \<le> k + 1"
    using kl(1) by (simp add: forceTrailingSlash_def k(3) js_def)
  have pn: "length path < length name \<or> (length path = length name \<and> \<not> ends_with_slash path)"
  proof (cases "ends_with_slash name")
    case True
    then have "x = name" using x by (simp add: forceTrailingSlash_def)
    then show ?thesis using True by (simp add: path_def ends_with_slash_def)
  next
    case False
    show ?thesis
    proof (cases "e = FolderEntry")
      case True
      then have "x = name @ js ''/''" using x False by (simp add: forceTrailingSlash_def)
      then have "path = name" by (simp add: path_def ends_with_slash_def js_def)
      then show ?thesis using False by simp
    next
      case False2: False
      then have "x = name" using x by simp
      then show ?thesis using False by (simp add: path_def)
    qed
  qed
  have "k + 1 < length name"
  proof (cases "length path < length name")
    case True
    then show ?thesis using kl(1) by simp
  next
    case False
    then have eq: "length path = length name" and ns: "\<not> ends_with_slash path" using pn by auto
    have "k \<noteq> length path - 1"
    proof
      assume "k = length path - 1"
      moreover have "path \<noteq> []" using kl(1) by auto
      ultimately have "last path = of_char CHR ''/''"
        using kl(2) last_conv_nth[of path] by simp
      then show False using ns kl(1) by (auto simp: ends_with_slash_def)
    qed
    then show ?thesis using kl(1) eq by simp
  qed
  then show "((forceTrailingSlash xa, FolderEntry, fs), (name, e, fs))
      \<in> measure (\<lambda>(name, e, fs). length name)"
    using f by simp
qed

declare fileAdd.simps [simp del]

text \<open>\<^verbatim>\<open>zip.file(name, data)\<close> on the root object.\<close>

definition zip_file :: "jsstring \<Rightarrow> blob \<Rightarrow> zip_entries \<Rightarrow> zip_entries" where
  "zip_file name data fs = fileAdd name (FileEntry data) fs"



subsection \<open>The run\<close>

text \<open>
  The inner \<^verbatim>\<open>try\<close> block, lines 160 to 200: any exception leaves the archive as it
  was, and the \<^verbatim>\<open>catch\<close> only logs it.
\<close>

definition download_image ::
  "platform \<Rightarrow> network \<Rightarrow> ParsedRow \<Rightarrow> jsstring \<Rightarrow> csv_state \<Rightarrow> csv_state" where
  "download_image p net row originalImageUrl st =
     (case encodeURIComponent p originalImageUrl of
        Inl e \<Rightarrow> st
      | Inr encodedImageUrl \<Rightarrow>
          (let proxyUrl = js ''/api/image-proxy?url='' @ encodedImageUrl;
               st1 = st\<lparr>requests := requests st @ [proxyUrl]\<rparr>
           in case net proxyUrl of
                Inl e \<Rightarrow> st1
              | Inr response \<Rightarrow>
                  if \<not> ok response then st1
                  else (case blob response of
                          Inl e \<Rightarrow> st1
                        | Inr imageBlob \<Rightarrow>
                            st1\<lparr>zip_files := zip_file (filename row) imageBlob (zip_files st1)\<rparr>)))"

text \<open>
  The body of the loop for the row of index \<open>i\<close> among \<open>n\<close> valid rows, lines 130 to
  207, with \<open>ident\<close> the trimmed identifier of line 128. The outer \<^verbatim>\<open>catch\<close> of the
  body only logs the exception of \<^verbatim>\<open>searchForImage\<close>.
\<close>

definition process_row ::
  "platform \<Rightarrow> network \<Rightarrow> jsstring \<Rightarrow> jsstring \<Rightarrow> jsstring \<Rightarrow> nat \<Rightarrow> nat \<Rightarrow> ParsedRow
     \<Rightarrow> jsstring \<Rightarrow> csv_state \<Rightarrow> csv_state" where
  "process_row p net apiKey cx store n i row ident st =
     (let st1 = st\<lparr>processingStatus := (processingStatus st)
                  \<lparr>current := i + 1, currentItem := ident,
                   message := js ''Searching for '' @ store @ js '' item: '' @ ident
                     @ js '' ('' @ num_str (i + 1) @ js ''/'' @ num_str n @ js '')''\<rparr>\<rparr>
      in case searchForImage p net apiKey cx store (csv_query store ident) (requests st1) of
           (Inl e, log) \<Rightarrow> st1\<lparr>requests := log\<rparr>
         | (Inr originalImageUrl, log) \<Rightarrow>
             if truthy originalImageUrl then
               (case originalImageUrl of
                  None \<Rightarrow> st1\<lparr>requests := log\<rparr>
                | Some u \<Rightarrow>
                    download_image p net row u
                      (st1\<lparr>requests := log,
                           processingStatus := (processingStatus st1)
                             \<lparr>status := Downloading,
                              message := js ''Downloading image for '' @ ident @ js '' (''
                                @ num_str (i + 1) @ js ''/'' @ num_str n @ js '')''\<rparr>\<rparr>))
             else st1\<lparr>requests := log\<rparr>)"

text \<open>
  The loop of line 126 over the valid rows, from index \<open>i\<close>; \<open>nets i\<close> is the network
  while the row of index \<open>i\<close> is processed. Line 128 reads the identifier outside the
  \<^verbatim>\<open>try\<close> of the body: on a row without the column it would throw out of the loop.
\<close>

fun process_rows ::
  "platform \<Rightarrow> (nat \<Rightarrow> network) \<Rightarrow> jsstring \<Rightarrow> jsstring \<Rightarrow> jsstring \<Rightarrow> nat \<Rightarrow> nat
     \<Rightarrow> ParsedRow list \<Rightarrow> csv_state \<Rightarrow> jsstring option \<times> csv_state" where
  "process_rows p nets apiKey cx store n i [] st = (None, st)"
| "process_rows p nets apiKey cx store n i (row # rest) st =
     (case row (idColumn store) of
        None \<Rightarrow> (Some (js ''Cannot read properties of undefined''), st)
      | Some v \<Rightarrow>
          process_rows p nets apiKey cx store n (i + 1) rest
            (process_row p (nets i) apiKey cx store n i row (trim v) st))"

definition error_status :: "jsstring \<Rightarrow> ProcessingStatus" where
  "error_status m =
     \<lparr>current = 0, total = 0, currentItem = [], status = Error, message = m,
      downloadUrl = None\<rparr>"

text \<open>
  The \<^verbatim>\<open>try\<close> block of the \<^verbatim>\<open>complete\<close> callback, lines 90 to 227: the exception
  that leaves it, if any, and the state then.
\<close>

definition parse_complete ::
  "platform \<Rightarrow> (nat \<Rightarrow> network) \<Rightarrow> jsstring \<Rightarrow> jsstring \<Rightarrow> jsstring \<Rightarrow> ParsedRow list
     \<Rightarrow> csv_state \<Rightarrow> jsstring option \<times> csv_state" where
  "parse_complete p nets apiKey cx store rows st =
     (let idColumnName = idColumn store in
      if idColumnName = [] then (Some (js ''No column name defined for store: '' @ store), st)
      else
        (let validRows = filter (valid_row idColumnName) rows in
         if length validRows = 0
         then (Some (js ''No valid '' @ idColumnName @ js '' values found in the CSV''), st)
         else
           (let st1 = st\<lparr>processingStatus := (processingStatus st)
                        \<lparr>total := length validRows,
                         message := js ''Found '' @ num_str (length validRows)
                           @ js '' items to process''\<rparr>,
                      zip_files := []\<rparr>
            in case process_rows p nets apiKey cx store (length validRows) 0 validRows st1 of
                 (Some e, st2) \<Rightarrow> (Some e, st2)
               | (None, st2) \<Rightarrow>
                   (let st3 = st2\<lparr>processingStatus := (processingStatus st2)
                                \<lparr>status := Downloading,
                                 message := js ''Generating ZIP file...''\<rparr>\<rparr>
                    in case generateAsync p (zip_files st3) of
                         Inl e \<Rightarrow> (Some e, st3)
                       | Inr zipBlob \<Rightarrow>
                           (None, st3\<lparr>processingStatus :=
                              \<lparr>current = length validRows, total = length validRows,
                               currentItem = [], status = Complete,
                               message = js ''Processing complete! Your download is ready.'',
                               downloadUrl = Some (createObjectURL p zipBlob)\<rparr>\<rparr>)))))"

text \<open>What \<^verbatim>\<open>Papa.parse\<close> reports: the rows, or an error.\<close>

datatype papa_result = ParseComplete "ParsedRow list" | ParseError jsstring

text \<open>\<^verbatim>\<open>processCSV\<close>, lines 73 to 252; \<open>file\<close> is \<open>None\<close> when no file is selected.\<close>

definition processCSV ::
  "platform \<Rightarrow> (nat \<Rightarrow> network) \<Rightarrow> jsstring \<Rightarrow> jsstring \<Rightarrow> jsstring \<Rightarrow> papa_result option
     \<Rightarrow> csv_state \<Rightarrow> csv_state" where
  "processCSV p nets apiKey cx store file st =
     (case file of
        None \<Rightarrow> st
      | Some parsed \<Rightarrow>
          (let st1 = st\<lparr>isProcessing := True,
                       processingStatus :=
                         \<lparr>current = 0, total = 0, currentItem = [], status = Processing,
                          message = js ''Parsing CSV file...'', downloadUrl = None\<rparr>\<rparr>
           in case parsed of
                ParseError m \<Rightarrow>
                  st1\<lparr>processingStatus := error_status (js ''CSV parsing error: '' @ m),
                      isProcessing := False\<rparr>
              | ParseComplete rows \<Rightarrow>
                  (case parse_complete p nets apiKey cx store rows st1 of
                     (Some e, st2) \<Rightarrow>
                       st2\<lparr>processingStatus := error_status (js ''Error: '' @ e),
                           isProcessing := False\<rparr>
                   | (None, st2) \<Rightarrow> st2\<lparr>isProcessing := False\<rparr>)))"

section \<open>The image proxy\<close>

datatype proxy_body = ErrorJson jsstring | ImageBuffer bytes

record proxy_response =
  proxy_status :: nat
  proxy_body :: proxy_body
  proxy_content_type :: jsstring
  proxy_cache_control :: "jsstring option"

text \<open>\<^verbatim>\<open>NextResponse.json({ error: m }, { status: n })\<close>\<close>

definition error_json :: "jsstring \<Rightarrow> nat \<Rightarrow> proxy_response" where
  "error_json m n =
     \<lparr>proxy_status = n, proxy_body = ErrorJson m,
      proxy_content_type = js ''application/json'', proxy_cache_control = None\<rparr>"

text \<open>
  \<^verbatim>\<open>GET(request)\<close>, with \<open>imageUrl\<close> the value of \<^verbatim>\<open>searchParams.get('url')\<close>
  (\<open>None\<close> for \<^verbatim>\<open>null\<close>) and \<open>decode\<close> the platform's \<^verbatim>\<open>decodeURIComponent\<close>. The
  response is paired with the URLs given to \<^verbatim>\<open>fetch\<close>; the two request headers that
  the source sends with it are constants and are left out. Every exception is
  caught by the \<^verbatim>\<open>catch\<close> of line 52.
\<close>

definition GET ::
  "(jsstring \<Rightarrow> jsstring result) \<Rightarrow> network \<Rightarrow> jsstring option
     \<Rightarrow> proxy_response \<times> jsstring list" where
  "GET decode net imageUrl =
     (case imageUrl of
        None \<Rightarrow> (error_json (js ''Missing image URL parameter'') 400, [])
      | Some u \<Rightarrow>
          if u = [] then (error_json (js ''Missing image URL parameter'') 400, [])
          else
            (case decode u of
               Inl e \<Rightarrow> (error_json (js ''Failed to fetch image'') 500, [])
             | Inr decodedUrl \<Rightarrow>
                 if \<not> startsWith decodedUrl (js ''https://'')
                 then (error_json (js ''Only HTTPS image URLs are supported'') 400, [])
                 else
                   (case net decodedUrl of
                      Inl e \<Rightarrow> (error_json (js ''Failed to fetch image'') 500, [decodedUrl])
                    | Inr response \<Rightarrow>
                        if \<not> ok response
                        then (error_json (js ''Failed to fetch image'') 500, [decodedUrl])
                        else
                          (case arrayBuffer response of
                             Inl e \<Rightarrow>
                               (error_json (js ''Failed to fetch image'') 500, [decodedUrl])
                           | Inr imageBuffer \<Rightarrow>
                               (\<lparr>proxy_status = 200, proxy_body = ImageBuffer imageBuffer,
                                 proxy_content_type =
                                   or_else (content_type response) (js ''image/webp''),
                                 proxy_cache_control = Some (js ''public, max-age=86400'')\<rparr>,
                                [decodedUrl])))))"

section \<open>Decoding of escapes\<close>

text \<open>The value of a hexadecimal digit.\<close>

definition hex_value :: "jschar \<Rightarrow> nat option" where
  "hex_value c =
     (if 0x30 \<le> c \<and> c \<le> 0x39 then Some (unat c - 0x30)
      else if 0x41 \<le> c \<and> c \<le> 0x46 then Some (unat c - 0x41 + 10)
      else if 0x61 \<le> c \<and> c \<le> 0x66 then Some (unat c - 0x61 + 10)
      else None)"

text \<open>\<^verbatim>\<open>ParseHexOctet\<close>: the octet written by two hexadecimal digits.\<close>

definition parse_hex_octet :: "jschar \<Rightarrow> jschar \<Rightarrow> nat option" where
  "parse_hex_octet h1 h2 =
     (case hex_value h1 of
        None \<Rightarrow> None
      | Some a \<Rightarrow> (case hex_value h2 of None \<Rightarrow> None | Some b \<Rightarrow> Some (16 * a + b)))"

text \<open>The number of leading 1 bits of an octet; 5 stands for five or more.\<close>

definition leading_ones :: "nat \<Rightarrow> nat" where
  "leading_ones b =
     (if b < 0x80 then 0 else if b < 0xC0 then 1 else if b < 0xE0 then 2
      else if b < 0xF0 then 3 else if b < 0xF8 then 4 else 5)"

definition continuation :: "nat \<Rightarrow> bool" where
  "continuation b = (0x80 \<le> b \<and> b \<le> 0xBF)"

text \<open>
  The code point of a sequence of two to four octets that is a valid UTF-8 encoding:
  no overlong form, no surrogate, nothing above \<^verbatim>\<open>U+10FFFF\<close>.
\<close>

fun utf8_code_point :: "nat list \<Rightarrow> nat option" where
  "utf8_code_point [b0, b1] =
     (if 0xC2 \<le> b0 \<and> b0 \<le> 0xDF \<and> continuation b1
      then Some ((b0 - 0xC0) * 0x40 + (b1 - 0x80)) else None)"
| "utf8_code_point [b0, b1, b2] =
     (if 0xE0 \<le> b0 \<and> b0 \<le> 0xEF \<and> continuation b1 \<and> continuation b2
         \<and> (if b0 = 0xE0 then 0xA0 \<le> b1 else if b0 = 0xED then b1 \<le> 0x9F else True)
      then Some ((b0 - 0xE0) * 0x1000 + (b1 - 0x80) * 0x40 + (b2 - 0x80)) else None)"
| "utf8_code_point [b0, b1, b2, b3] =
     (if 0xF0 \<le> b0 \<and> b0 \<le> 0xF4 \<and> continuation b1 \<and> continuation b2 \<and> continuation b3
         \<and> (if b0 = 0xF0 then 0x90 \<le> b1 else if b0 = 0xF4 then b1 \<le> 0x8F else True)
      then Some ((b0 - 0xF0) * 0x40000 + (b1 - 0x80) * 0x1000 + (b2 - 0x80) * 0x40 + (b3 - 0x80))
      else None)"
| "utf8_code_point _ = None"

text \<open>\<^verbatim>\<open>UTF16EncodeCodePoint\<close>\<close>

definition utf16_encode :: "nat \<Rightarrow> jsstring" where
  "utf16_encode v =
     (if v \<le> 0xFFFF then [of_nat v]
      else [of_nat ((v - 0x10000) div 0x400 + 0xD800), of_nat ((v - 0x10000) mod 0x400 + 0xDC00)])"

text \<open>
  The loop of the abstract operation \<^verbatim>\<open>Decode\<close> of ECMAScript, with an empty set of
  preserved escapes: \<open>need\<close> is the number of continuation octets still to be read
  for the sequence begun by \<open>octets\<close>. \<open>None\<close> is the \<^verbatim>\<open>URIError\<close> that the operation
  throws on an escape that is cut short, is not hexadecimal, or is not valid UTF-8.
\<close>

fun decode_units :: "nat list \<Rightarrow> nat \<Rightarrow> jsstring \<Rightarrow> jsstring option" where
  "decode_units octets need [] = (if need = 0 then Some [] else None)"
| "decode_units octets need (c # cs) =
     (if need = 0 then
        (if c \<noteq> 0x25 then map_option ((#) c) (decode_units [] 0 cs)
         else
           (case cs of
              h1 # h2 # rest \<Rightarrow>
                (case parse_hex_octet h1 h2 of
                   None \<Rightarrow> None
                 | Some b \<Rightarrow>
                     if leading_ones b = 0
                     then map_option ((#) (of_nat b)) (decode_units [] 0 rest)
                     else if leading_ones b = 1 \<or> leading_ones b > 4 then None
                     else decode_units [b] (leading_ones b - 1) rest)
            | _ \<Rightarrow> None))
      else
        (if c \<noteq> 0x25 then None
         else
           (case cs of
              h1 # h2 # rest \<Rightarrow>
                (case parse_hex_octet h1 h2 of
                   None \<Rightarrow> None
                 | Some b \<Rightarrow>
                     if need = 1 then
                       (case utf8_code_point (octets @ [b]) of
                          None \<Rightarrow> None
                        | Some v \<Rightarrow>
                            map_option ((@) (utf16_encode v)) (decode_units [] 0 rest))
                     else decode_units (octets @ [b]) (need - 1) rest)
            | _ \<Rightarrow> None)))"

text \<open>The built-in \<^verbatim>\<open>decodeURIComponent\<close> of ECMAScript.\<close>

definition decodeURIComponent :: "jsstring \<Rightarrow> jsstring result" where
  "decodeURIComponent s =
     (case decode_units [] 0 s of None \<Rightarrow> Inl (js ''URI malformed'') | Some r \<Rightarrow> Inr r)"

text \<open>
  The value that \<^verbatim>\<open>searchParams.get\<close> gives for the raw text of a parameter of the
  query string (the parser of the URL standard: a plus sign is a space, an escape of
  two hexadecimal digits is its octet, any other percent sign stays). Only raw text
  of printable ASCII whose escapes are ASCII is modelled; \<open>None\<close> is any other text.
\<close>

fun searchParams_value :: "jsstring \<Rightarrow> jsstring option" where
  "searchParams_value [] = Some []"
| "searchParams_value (c # cs) =
     (if c \<le> 0x20 \<or> 0x7F \<le> c \<or> c = 0x26 \<or> c = 0x23 then None
      else if c = 0x2B then map_option ((#) 0x20) (searchParams_value cs)
      else if c = 0x25 then
        (case cs of
           h1 # h2 # rest \<Rightarrow>
             (case parse_hex_octet h1 h2 of
                None \<Rightarrow> map_option ((#) c) (searchParams_value cs)
              | Some b \<Rightarrow>
                  if b < 0x80 then map_option ((#) (of_nat b)) (searchParams_value rest)
                  else None)
         | _ \<Rightarrow> map_option ((#) c) (searchParams_value cs))
      else map_option ((#) c) (searchParams_value cs))"

section \<open>Initial state and inputs for the scenarios\<close>

text \<open>The state of the CSV page before a run: the initial values of lines 42 to 49.\<close>

definition initial_state :: csv_state where
  "initial_state =
     \<lparr>processingStatus =
        \<lparr>current = 0, total = 0, currentItem = [], status = Idle, message = [],
         downloadUrl = None\<rparr>,
      isProcessing = False, zip_files = [], requests = []\<rparr>"

text \<open>
  A platform whose \<^verbatim>\<open>encodeURIComponent\<close> leaves its argument as it is (as the
  built-in does on letters and digits) and whose archive is always generated.
\<close>

definition plain_platform :: platform where
  "plain_platform =
     \<lparr>encodeURIComponent = Inr,
      generateAsync = (\<lambda>fs. Inr \<lparr>blob_type = js ''application/zip'', blob_bytes = []\<rparr>),
      createObjectURL = (\<lambda>b. js ''blob:archive'')\<rparr>"

text \<open>
  A network on which the search finds one image of TARGET and the proxy serves one
  octet for it, and a network on which every request fails.
\<close>

definition search_response :: response where
  "search_response =
     \<lparr>status_code = 200, content_type = Some (js ''application/json''),
      json = Inr (results_of [[js ''https://target.scene7.com/p'']]),
      blob = Inl (js ''not read''), arrayBuffer = Inl (js ''not read'')\<rparr>"

definition image_response :: response where
  "image_response =
     \<lparr>status_code = 200, content_type = Some (js ''image/webp''),
      json = Inl (js ''not read''),
      blob = Inr \<lparr>blob_type = js ''image/webp'', blob_bytes = [1]\<rparr>,
      arrayBuffer = Inr [1]\<rparr>"

definition good_network :: network where
  "good_network url =
     (if startsWith url (js ''https://www.googleapis.com/'') then Inr search_response
      else Inr image_response)"

definition down_network :: network where
  "down_network url = Inl (js ''Failed to fetch'')"

text \<open>The network of a run in which only the second row meets a failure.\<close>

definition second_row_down :: "nat \<Rightarrow> network" where
  "second_row_down i = (if i = 1 then down_network else good_network)"

text \<open>Rows of a file for TARGET: three with a product identifier, two without.\<close>

definition row_a :: ParsedRow where
  "row_a = [js ''TCIN'' \<mapsto> js ''1'', js ''Model'' \<mapsto> js ''A_1'', js ''Manufacturer'' \<mapsto> js ''M'']"

definition row_b :: ParsedRow where
  "row_b = [js ''TCIN'' \<mapsto> js ''2'', js ''Model'' \<mapsto> js ''B'']"

definition row_c :: ParsedRow where
  "row_c = [js ''TCIN'' \<mapsto> js ''3'', js ''Model'' \<mapsto> js ''C'']"

definition row_blank :: ParsedRow where
  "row_blank = [js ''TCIN'' \<mapsto> js ''  '', js ''Model'' \<mapsto> js ''D'']"

definition row_without_id :: ParsedRow where
  "row_without_id = [js ''Model'' \<mapsto> js ''E'']"

text \<open>A row whose model number holds a slash.\<close>

definition row_slash :: ParsedRow where
  "row_slash = [js ''TCIN'' \<mapsto> js ''4'', js ''Model'' \<mapsto> js ''1/2 in'']"

section \<open>Facts about strings and result sets\<close>

lemmas eval_defs = js_def startsWith_def truthy_def first_src_def first_image_def
  src_startsWith_def find_image_def target_prefix_def thd_prefix_def lowes_prefix_def
  target_params_def append_target_params_def item_of_def results_of_def

lemma truthy_simps: "truthy None = False" "truthy (Some s) = (s \<noteq> [])"
  by (simp_all add: truthy_def)

lemma startsWith_nonempty: "startsWith u p \<Longrightarrow> p \<noteq> [] \<Longrightarrow> u \<noteq> []"
  by (auto simp: startsWith_def)

lemma startsWith_iff: "startsWith u p \<longleftrightarrow> (\<exists>t. u = p @ t)"
proof
  assume "startsWith u p"
  then have "u = p @ drop (length p) u"
    unfolding startsWith_def using append_take_drop_id[of "length p" u] by simp
  then show "\<exists>t. u = p @ t" ..
next
  assume "\<exists>t. u = p @ t"
  then show "startsWith u p" by (auto simp: startsWith_def)
qed

lemma startsWith_append: "startsWith u p \<Longrightarrow> startsWith (u @ w) p"
  by (auto simp: startsWith_iff)

lemma prefixes_nonempty:
  "target_prefix \<noteq> []" "thd_prefix \<noteq> []" "lowes_prefix \<noteq> []"
  by (simp_all add: target_prefix_def thd_prefix_def lowes_prefix_def js_def)

lemma prefixes_https:
  "startsWith target_prefix (js ''https://'')"
  "startsWith thd_prefix (js ''https://'')"
  "startsWith lowes_prefix (js ''https://'')"
  by (simp_all add: target_prefix_def thd_prefix_def lowes_prefix_def js_def startsWith_def)

lemma startsWith_trans: "startsWith u p \<Longrightarrow> startsWith p q \<Longrightarrow> startsWith u q"
  by (auto simp: startsWith_iff)

lemma find_first_match:
  "(\<forall>x\<in>set pre. \<not> P x) \<Longrightarrow> P it \<Longrightarrow> find P (pre @ it # post) = Some it"
  by (induction pre) auto

lemma find_image_first:
  assumes "items d = Some (pre @ it # post)"
    and "\<forall>x\<in>set pre. \<not> src_startsWith p x"
    and "first_src it = Some u" and "startsWith u p"
  shows "find_image p d = Some u"
proof -
  have "src_startsWith p it" using assms(3,4) by (simp add: src_startsWith_def)
  then have "find (src_startsWith p) (pre @ it # post) = Some it"
    using assms(2) by (rule_tac find_first_match) auto
  then show ?thesis using assms(1,3) by (simp add: find_image_def)
qed

lemma find_image_none:
  assumes "\<forall>its. items d = Some its \<longrightarrow> (\<forall>x\<in>set its. \<not> src_startsWith p x)"
  shows "find_image p d = None"
proof (cases "items d")
  case None
  then show ?thesis by (simp add: find_image_def)
next
  case (Some its)
  then have "find (src_startsWith p) its = None"
    using assms by (simp add: find_None_iff)
  then show ?thesis using Some by (simp add: find_image_def)
qed

lemma find_image_Some:
  assumes "find_image p d = Some u"
  shows "startsWith u p"
proof -
  from assms obtain its it where a: "items d = Some its" "find (src_startsWith p) its = Some it"
    "first_src it = Some u"
    by (auto simp: find_image_def split: option.splits)
  then have "src_startsWith p it" by (auto simp: find_Some_iff)
  then show ?thesis using a(3) by (simp add: src_startsWith_def)
qed

lemma find_image_None_first:
  assumes "find_image p d = None" and "first_image d = Some u"
  shows "\<not> startsWith u p"
proof
  assume s: "startsWith u p"
  from assms(2) obtain it rest where a: "items d = Some (it # rest)" "first_src it = Some u"
    by (auto simp: first_image_def split: option.splits list.splits)
  then have "src_startsWith p it" using s by (simp add: src_startsWith_def)
  then have "find_image p d = Some u" using a by (simp add: find_image_def)
  then show False using assms(1) by simp
qed

lemma single_result:
  "find_image p (results_of [[u]]) = (if startsWith u p then Some u else None)"
  "first_image (results_of [[u]]) = Some u"
  by (simp_all add: find_image_def first_image_def results_of_def item_of_def src_startsWith_def first_src_def)

lemma no_candidate_find:
  assumes "\<forall>its. items d = Some its \<longrightarrow> (\<forall>it\<in>set its. \<not> truthy (first_src it))"
    and "p \<noteq> []"
  shows "find_image p d = None"
proof (cases "items d")
  case None
  then show ?thesis by (simp add: find_image_def)
next
  case (Some its)
  have "\<not> src_startsWith p it" if "it \<in> set its" for it
  proof -
    have "\<not> truthy (first_src it)" using assms(1) Some that by simp
    then show ?thesis using assms(2)
      by (auto simp: src_startsWith_def truthy_def startsWith_def split: option.splits)
  qed
  then have "find (src_startsWith p) its = None" by (simp add: find_None_iff)
  then show ?thesis using Some by (simp add: find_image_def)
qed

lemma no_candidate_first:
  assumes "\<forall>its. items d = Some its \<longrightarrow> (\<forall>it\<in>set its. \<not> truthy (first_src it))"
  shows "\<not> truthy (first_image d)"
  using assms by (auto simp: first_image_def truthy_def split: option.splits list.splits)

section \<open>Resolution for TARGET\<close>

text \<open>
  Claim C3. For TARGET, on both pages, the result is the first candidate of the first
  item whose first candidate starts with \<^verbatim>\<open>https://target.scene7.com\<close>, followed by
  \<^verbatim>\<open>?qlt=65&fmt=webp&hei=1200&wid=1200\<close>; when no item has such a first candidate the
  result is absent, whatever other images the items carry.
\<close>

theorem target_resolution:
  "(\<forall>pre it post u.
      items d = Some (pre @ it # post) \<and> (\<forall>x\<in>set pre. \<not> src_startsWith target_prefix x)
        \<and> first_src it = Some u \<and> startsWith u target_prefix
      \<longrightarrow> searchForImage_resolve (js ''TARGET'') d = Some (u @ target_params)
        \<and> handleSearch_resolved (js ''TARGET'') d = Some (u @ target_params))
   \<and> ((\<forall>its. items d = Some its \<longrightarrow> (\<forall>x\<in>set its. \<not> src_startsWith target_prefix x))
      \<longrightarrow> searchForImage_resolve (js ''TARGET'') d = None
        \<and> handleSearch_resolved (js ''TARGET'') d = None)"
proof (intro conjI allI impI)
  fix pre it post u
  assume h: "items d = Some (pre @ it # post) \<and> (\<forall>x\<in>set pre. \<not> src_startsWith target_prefix x)
        \<and> first_src it = Some u \<and> startsWith u target_prefix"
  then have f: "find_image target_prefix d = Some u"
    using find_image_first[of d pre it post target_prefix u] by blast
  have ne: "u \<noteq> []" using h startsWith_nonempty prefixes_nonempty(1) by blast
  show "searchForImage_resolve (js ''TARGET'') d = Some (u @ target_params)"
    using f ne by (simp add: searchForImage_resolve_def truthy_def append_target_params_def)
  show "handleSearch_resolved (js ''TARGET'') d = Some (u @ target_params)"
    using f ne by (simp add: handleSearch_resolved_def handleSearch_found_def truthy_def append_target_params_def)
next
  assume h: "\<forall>its. items d = Some its \<longrightarrow> (\<forall>x\<in>set its. \<not> src_startsWith target_prefix x)"
  then have f: "find_image target_prefix d = None" by (rule find_image_none)
  show "searchForImage_resolve (js ''TARGET'') d = None"
    using f by (simp add: searchForImage_resolve_def truthy_def)
  show "handleSearch_resolved (js ''TARGET'') d = None"
    using f by (simp add: handleSearch_resolved_def handleSearch_found_def truthy_def)
qed

theorem target_resolution_witness:
  "searchForImage_resolve (js ''TARGET'')
     (results_of [[js ''https://other.cdn/x.jpg''], [js ''https://target.scene7.com/y.jpg'']])
     = Some (js ''https://target.scene7.com/y.jpg?qlt=65&fmt=webp&hei=1200&wid=1200'')
   \<and> handleSearch_resolved (js ''TARGET'')
     (results_of [[js ''https://other.cdn/x.jpg''], [js ''https://target.scene7.com/y.jpg'']])
     = Some (js ''https://target.scene7.com/y.jpg?qlt=65&fmt=webp&hei=1200&wid=1200'')
   \<and> searchForImage_resolve (js ''TARGET'') (results_of [[js ''https://other.cdn/x.jpg'']]) = None
   \<and> handleSearch_resolved (js ''TARGET'') (results_of [[js ''https://other.cdn/x.jpg'']]) = None"
proof -
  let ?d = "results_of [[js ''https://other.cdn/x.jpg''], [js ''https://target.scene7.com/y.jpg'']]"
  let ?e = "results_of [[js ''https://other.cdn/x.jpg'']]"
  have a: "items ?d = Some ([item_of [js ''https://other.cdn/x.jpg'']] @ item_of [js ''https://target.scene7.com/y.jpg''] # [])
      \<and> (\<forall>x\<in>set [item_of [js ''https://other.cdn/x.jpg'']]. \<not> src_startsWith target_prefix x)
      \<and> first_src (item_of [js ''https://target.scene7.com/y.jpg'']) = Some (js ''https://target.scene7.com/y.jpg'')
      \<and> startsWith (js ''https://target.scene7.com/y.jpg'') target_prefix"
    by (simp add: eval_defs)
  have b: "\<forall>its. items ?e = Some its \<longrightarrow> (\<forall>x\<in>set its. \<not> src_startsWith target_prefix x)"
    by (simp add: eval_defs)
  have c: "js ''https://target.scene7.com/y.jpg'' @ target_params = js ''https://target.scene7.com/y.jpg?qlt=65&fmt=webp&hei=1200&wid=1200''"
    by (simp add: eval_defs)
  from target_resolution[of ?d, THEN conjunct1, rule_format, OF a]
       target_resolution[of ?e, THEN conjunct2, THEN mp, OF b] c
  show ?thesis by simp
qed

text \<open>
  Claim C4. Appending the parameters of TARGET is not idempotent: a second
  application appends them a second time, so there is a URL on which two
  applications differ from one. The resolver of either page, given its own output
  as the only candidate, returns it with the parameters twice.
\<close>

theorem target_params_not_idempotent:
  "(\<exists>u. append_target_params (append_target_params u) \<noteq> append_target_params u)
   \<and> (\<forall>u. append_target_params (append_target_params u) = u @ target_params @ target_params)
   \<and> (\<forall>u. startsWith u target_prefix \<longrightarrow>
        searchForImage_resolve (js ''TARGET'') (results_of [[u]]) = Some (append_target_params u)
      \<and> searchForImage_resolve (js ''TARGET'') (results_of [[append_target_params u]])
          = Some (append_target_params (append_target_params u))
      \<and> handleSearch_resolved (js ''TARGET'') (results_of [[u]]) = Some (append_target_params u)
      \<and> handleSearch_resolved (js ''TARGET'') (results_of [[append_target_params u]])
          = Some (append_target_params (append_target_params u)))"
proof (intro conjI allI impI)
  have "target_params \<noteq> []" by (simp add: target_params_def js_def)
  then have "append_target_params (append_target_params []) \<noteq> append_target_params []"
    by (simp add: append_target_params_def)
  then show "\<exists>u. append_target_params (append_target_params u) \<noteq> append_target_params u" ..
next
  fix u show "append_target_params (append_target_params u) = u @ target_params @ target_params"
    by (simp add: append_target_params_def)
next
  fix u assume s: "startsWith u target_prefix"
  then have s': "startsWith (append_target_params u) target_prefix"
    by (simp add: append_target_params_def startsWith_append)
  have ne: "u \<noteq> []" "append_target_params u \<noteq> []"
    using s s' startsWith_nonempty prefixes_nonempty(1) by blast+
  show "searchForImage_resolve (js ''TARGET'') (results_of [[u]]) = Some (append_target_params u)"
    using s ne by (simp add: searchForImage_resolve_def single_result truthy_def)
  show "searchForImage_resolve (js ''TARGET'') (results_of [[append_target_params u]])
          = Some (append_target_params (append_target_params u))"
    using s' ne by (simp add: searchForImage_resolve_def single_result truthy_def)
  show "handleSearch_resolved (js ''TARGET'') (results_of [[u]]) = Some (append_target_params u)"
    using s ne by (simp add: handleSearch_resolved_def handleSearch_found_def single_result truthy_def)
  show "handleSearch_resolved (js ''TARGET'') (results_of [[append_target_params u]])
          = Some (append_target_params (append_target_params u))"
    using s' ne by (simp add: handleSearch_resolved_def handleSearch_found_def single_result truthy_def)
qed

theorem target_params_not_idempotent_witness:
  "searchForImage_resolve (js ''TARGET'') (results_of [[js ''https://target.scene7.com/y'']])
     = Some (js ''https://target.scene7.com/y?qlt=65&fmt=webp&hei=1200&wid=1200'')
   \<and> searchForImage_resolve (js ''TARGET'')
       (results_of [[js ''https://target.scene7.com/y?qlt=65&fmt=webp&hei=1200&wid=1200'']])
     = Some (js ''https://target.scene7.com/y?qlt=65&fmt=webp&hei=1200&wid=1200?qlt=65&fmt=webp&hei=1200&wid=1200'')"
proof -
  have a: "startsWith (js ''https://target.scene7.com/y'') target_prefix"
    by (simp add: eval_defs)
  have b: "append_target_params (js ''https://target.scene7.com/y'')
      = js ''https://target.scene7.com/y?qlt=65&fmt=webp&hei=1200&wid=1200''"
    by (simp add: eval_defs)
  have c: "append_target_params (js ''https://target.scene7.com/y?qlt=65&fmt=webp&hei=1200&wid=1200'')
      = js ''https://target.scene7.com/y?qlt=65&fmt=webp&hei=1200&wid=1200?qlt=65&fmt=webp&hei=1200&wid=1200''"
    by (simp add: eval_defs)
  from target_params_not_idempotent[THEN conjunct2, THEN conjunct2, THEN spec, THEN mp, OF a]
  show ?thesis unfolding b c by simp
qed

section \<open>Absence\<close>

text \<open>
  Claim C6. For every store, a result set without \<^verbatim>\<open>items\<close>, with no item, or whose
  items have no usable first candidate resolves to absence on both pages; and
  \<^verbatim>\<open>searchForImage\<close>, given a successful response with such a result set, returns
  \<^verbatim>\<open>null\<close> and throws nothing.
\<close>

theorem no_candidate_absent:
  assumes "\<forall>its. items d = Some its \<longrightarrow> (\<forall>it\<in>set its. \<not> truthy (first_src it))"
  shows "searchForImage_resolve store d = None \<and> handleSearch_resolved store d = None
    \<and> (\<forall>(p::platform) net apiKey cx query log q r.
         encodeURIComponent p query = Inr q
         \<and> net (js ''https://www.googleapis.com/customsearch/v1?key='' @ apiKey
                @ js ''&cx='' @ cx @ js ''&q='' @ q) = Inr r
         \<and> ok r \<and> json r = Inr d
         \<longrightarrow> fst (searchForImage p net apiKey cx store query log) = Inr None)"
proof -
  note f = no_candidate_find[OF assms] and g = no_candidate_first[OF assms]
  have a: "searchForImage_resolve store d = None"
    unfolding searchForImage_resolve_def Let_def
    by (simp add: f prefixes_nonempty g truthy_simps)
  have b: "handleSearch_resolved store d = None"
    unfolding handleSearch_resolved_def handleSearch_found_def Let_def
    by (simp add: f prefixes_nonempty g truthy_simps)
  show ?thesis
  proof (intro conjI allI impI)
    show "searchForImage_resolve store d = None" by (rule a)
    show "handleSearch_resolved store d = None" by (rule b)
  next
    fix p :: platform and net :: network and apiKey cx query log q r
    assume h: "encodeURIComponent p query = Inr q
         \<and> net (js ''https://www.googleapis.com/customsearch/v1?key='' @ apiKey
                @ js ''&cx='' @ cx @ js ''&q='' @ q) = Inr r
         \<and> ok r \<and> json r = Inr d"
    show "fst (searchForImage p net apiKey cx store query log) = Inr None"
      unfolding searchForImage_def Let_def using h a by simp
  qed
qed

theorem no_candidate_absent_witness:
  "(\<forall>store. searchForImage_resolve store \<lparr>items = None\<rparr> = None
       \<and> handleSearch_resolved store \<lparr>items = None\<rparr> = None
       \<and> searchForImage_resolve store \<lparr>items = Some []\<rparr> = None
       \<and> handleSearch_resolved store \<lparr>items = Some []\<rparr> = None
       \<and> searchForImage_resolve store \<lparr>items = Some [\<lparr>pagemap = None\<rparr>,
            \<lparr>pagemap = Some \<lparr>cse_image = None\<rparr>\<rparr>, \<lparr>pagemap = Some \<lparr>cse_image = Some []\<rparr>\<rparr>]\<rparr> = None
       \<and> handleSearch_resolved store \<lparr>items = Some [\<lparr>pagemap = None\<rparr>,
            \<lparr>pagemap = Some \<lparr>cse_image = None\<rparr>\<rparr>, \<lparr>pagemap = Some \<lparr>cse_image = Some []\<rparr>\<rparr>]\<rparr> = None)"
proof -
  have a: "\<forall>its. items \<lparr>items = None\<rparr> = Some its \<longrightarrow> (\<forall>it\<in>set its. \<not> truthy (first_src it))"
    by simp
  have b: "\<forall>its. items \<lparr>items = Some []\<rparr> = Some its \<longrightarrow> (\<forall>it\<in>set its. \<not> truthy (first_src it))"
    by simp
  have c: "\<forall>its. items \<lparr>items = Some [\<lparr>pagemap = None\<rparr>,
            \<lparr>pagemap = Some \<lparr>cse_image = None\<rparr>\<rparr>, \<lparr>pagemap = Some \<lparr>cse_image = Some []\<rparr>\<rparr>]\<rparr> = Some its
       \<longrightarrow> (\<forall>it\<in>set its. \<not> truthy (first_src it))"
    by (simp add: first_src_def truthy_def)
  note ra = no_candidate_absent[OF a] and rb = no_candidate_absent[OF b]
    and rc = no_candidate_absent[OF c]
  show ?thesis
    by (intro allI conjI)
      (rule ra[THEN conjunct1], rule ra[THEN conjunct2, THEN conjunct1],
       rule rb[THEN conjunct1], rule rb[THEN conjunct2, THEN conjunct1],
       rule rc[THEN conjunct1], rule rc[THEN conjunct2, THEN conjunct1])
qed


section \<open>Facts about the regular expression\<close>





lemma replace_size_nomatch: "\<not> match_size u \<Longrightarrow> replace_size u = u"
  by (induction u) (auto split: if_splits)

lemma lowes_prefix_replace: "replace_size (lowes_prefix @ t) = lowes_prefix @ replace_size t"
  by (simp add: lowes_prefix_def js_def size_param_here_def)

lemma lowes_rewrite_prefix:
  assumes "startsWith u lowes_prefix" shows "startsWith (lowes_rewrite u) lowes_prefix"
proof -
  obtain t where "u = lowes_prefix @ t" using assms startsWith_iff by blast
  then show ?thesis
    by (simp add: lowes_rewrite_def lowes_prefix_replace startsWith_iff)
qed

section \<open>The resolvers, store by store\<close>

lemma store_distinct:
  "js ''HOMEDEPOT'' \<noteq> js ''TARGET''" "js ''BESTBUY'' \<noteq> js ''TARGET''"
  "js ''BESTBUY'' \<noteq> js ''HOMEDEPOT''" "js ''LOWES'' \<noteq> js ''TARGET''"
  "js ''LOWES'' \<noteq> js ''HOMEDEPOT''" "js ''LOWES'' \<noteq> js ''BESTBUY''"
  by (simp_all add: js_def)

lemma not_truthy_find:
  assumes "\<not> truthy (find_image p d)" and "p \<noteq> []"
  shows "find_image p d = None"
proof (cases "find_image p d")
  case None
  then show ?thesis .
next
  case (Some u)
  then have "startsWith u p" by (rule find_image_Some)
  then have "u \<noteq> []" using assms(2) by (rule startsWith_nonempty)
  then show ?thesis using assms(1) Some by (simp add: truthy_simps)
qed

lemma truthy_find:
  assumes "truthy (find_image p d)"
  obtains f where "find_image p d = Some f" "f \<noteq> []" "startsWith f p"
  using assms find_image_Some[of p d] by (cases "find_image p d") (auto simp: truthy_simps)

lemma truthy_Some: "truthy v \<Longrightarrow> \<exists>f. v = Some f \<and> f \<noteq> []"
  by (cases v) (auto simp: truthy_simps)

lemma resolve_TARGET:
  "searchForImage_resolve (js ''TARGET'') d =
     (if truthy (find_image target_prefix d)
      then map_option append_target_params (find_image target_prefix d) else None)"
  by (simp add: searchForImage_resolve_def)

lemma resolve_HOMEDEPOT:
  "searchForImage_resolve (js ''HOMEDEPOT'') d =
     (if truthy (find_image thd_prefix d) then find_image thd_prefix d
      else if truthy (first_image d) then first_image d else None)"
  by (simp add: searchForImage_resolve_def store_distinct)

lemma resolve_BESTBUY:
  "searchForImage_resolve (js ''BESTBUY'') d =
     (if truthy (first_image d) then first_image d else None)"
  by (simp add: searchForImage_resolve_def store_distinct)

lemma resolve_LOWES:
  "searchForImage_resolve (js ''LOWES'') d =
     (if truthy (find_image lowes_prefix d) then map_option lowes_rewrite (find_image lowes_prefix d)
      else if truthy (first_image d) then map_option lowes_fallback_rewrite (first_image d)
      else None)"
  by (simp add: searchForImage_resolve_def store_distinct)

lemma resolve_other:
  "store \<noteq> js ''TARGET'' \<Longrightarrow> store \<noteq> js ''HOMEDEPOT'' \<Longrightarrow> store \<noteq> js ''BESTBUY''
     \<Longrightarrow> store \<noteq> js ''LOWES'' \<Longrightarrow> searchForImage_resolve store d = None"
  by (simp add: searchForImage_resolve_def)

lemma home_TARGET:
  "handleSearch_resolved (js ''TARGET'') d =
     (if truthy (find_image target_prefix d)
      then map_option append_target_params (find_image target_prefix d) else None)"
  by (simp add: handleSearch_resolved_def handleSearch_found_def)

lemma home_HOMEDEPOT:
  "handleSearch_resolved (js ''HOMEDEPOT'') d =
     (if truthy (find_image thd_prefix d) then find_image thd_prefix d
      else if truthy (first_image d) then first_image d else None)"
proof -
  have "first_image d = None" if "items d = None \<or> items d = Some []"
    using that by (auto simp: first_image_def)
  then have a: "\<not> (case items d of None \<Rightarrow> False | Some its \<Rightarrow> its \<noteq> []) \<Longrightarrow> \<not> truthy (first_image d)"
    by (auto simp: truthy_simps split: option.splits)
  have b: "\<not> (case items d of None \<Rightarrow> False | Some its \<Rightarrow> its \<noteq> []) \<Longrightarrow> find_image thd_prefix d = None"
    by (auto simp: find_image_def split: option.splits)
  show ?thesis
    using a b by (auto simp: handleSearch_resolved_def handleSearch_found_def store_distinct Let_def truthy_simps)
qed

lemma home_BESTBUY:
  "handleSearch_resolved (js ''BESTBUY'') d =
     (if truthy (first_image d) then first_image d else None)"
  by (simp add: handleSearch_resolved_def handleSearch_found_def store_distinct)

lemma home_other:
  "store \<noteq> js ''TARGET'' \<Longrightarrow> store \<noteq> js ''HOMEDEPOT'' \<Longrightarrow> store \<noteq> js ''BESTBUY''
     \<Longrightarrow> handleSearch_resolved store d = None"
  by (simp add: handleSearch_resolved_def handleSearch_found_def truthy_simps)

lemma lowes_fallback_unchanged:
  assumes "find_image lowes_prefix d = None" and "first_image d = Some u"
  shows "\<not> startsWith u lowes_prefix" and "lowes_fallback_rewrite u = u"
proof -
  show "\<not> startsWith u lowes_prefix" using assms by (rule find_image_None_first)
  then show "lowes_fallback_rewrite u = u" by (simp add: lowes_fallback_rewrite_def)
qed

lemma csv_shape:
  assumes r: "searchForImage_resolve store d = Some u"
  shows "u \<noteq> [] \<and> (startsWith u (js ''https://'')
      \<or> first_image d = Some u
        \<and> (store = js ''BESTBUY''
           \<or> store = js ''HOMEDEPOT'' \<and> find_image thd_prefix d = None
           \<or> store = js ''LOWES'' \<and> find_image lowes_prefix d = None))"
proof -
  consider (T) "store = js ''TARGET''" | (H) "store = js ''HOMEDEPOT''" | (B) "store = js ''BESTBUY''"
    | (L) "store = js ''LOWES''"
    | (O) "store \<noteq> js ''TARGET''" "store \<noteq> js ''HOMEDEPOT''" "store \<noteq> js ''BESTBUY''" "store \<noteq> js ''LOWES''"
    by blast
  then show ?thesis
  proof cases
    case T
    then have t: "truthy (find_image target_prefix d)" using r by (auto simp: resolve_TARGET split: if_splits)
    then obtain f where f: "find_image target_prefix d = Some f" "f \<noteq> []" "startsWith f target_prefix"
      by (rule truthy_find)
    then have u: "u = f @ target_params" using r T t by (simp add: resolve_TARGET append_target_params_def)
    have "startsWith f (js ''https://'')" using f(3) prefixes_https(1) by (rule startsWith_trans)
    then have "startsWith u (js ''https://'')" unfolding u by (rule startsWith_append)
    then show ?thesis using u f(2) by simp
  next
    case H
    show ?thesis
    proof (cases "truthy (find_image thd_prefix d)")
      case True
      then obtain f where f: "find_image thd_prefix d = Some f" "f \<noteq> []" "startsWith f thd_prefix"
        by (rule truthy_find)
      then have u: "u = f" using r H True by (simp add: resolve_HOMEDEPOT)
      have "startsWith f (js ''https://'')" using f(3) prefixes_https(2) by (rule startsWith_trans)
      then show ?thesis using u f(2) by simp
    next
      case False
      then have n: "find_image thd_prefix d = None" using prefixes_nonempty(2) by (rule not_truthy_find)
      have t: "truthy (first_image d)" using r H False by (auto simp: resolve_HOMEDEPOT split: if_splits)
      then have "first_image d = Some u" using r H False by (simp add: resolve_HOMEDEPOT)
      then show ?thesis using t n H by (simp add: truthy_simps)
    qed
  next
    case B
    have t: "truthy (first_image d)" using r B by (auto simp: resolve_BESTBUY split: if_splits)
    then have "first_image d = Some u" using r B by (simp add: resolve_BESTBUY)
    then show ?thesis using t B by (simp add: truthy_simps)
  next
    case L
    show ?thesis
    proof (cases "truthy (find_image lowes_prefix d)")
      case True
      then obtain f where f: "find_image lowes_prefix d = Some f" "f \<noteq> []" "startsWith f lowes_prefix"
        by (rule truthy_find)
      then have u: "u = lowes_rewrite f" using r L True by (simp add: resolve_LOWES)
      have p: "startsWith u lowes_prefix" unfolding u using f(3) by (rule lowes_rewrite_prefix)
      then have "startsWith u (js ''https://'')" using prefixes_https(3) by (rule startsWith_trans)
      moreover have "u \<noteq> []" using p prefixes_nonempty(3) by (rule startsWith_nonempty)
      ultimately show ?thesis by simp
    next
      case False
      then have n: "find_image lowes_prefix d = None" using prefixes_nonempty(3) by (rule not_truthy_find)
      have t: "truthy (first_image d)" using r L False by (auto simp: resolve_LOWES split: if_splits)
      then obtain f where f: "first_image d = Some f" "f \<noteq> []" using truthy_Some by blast
      then have "u = lowes_fallback_rewrite f" using r L False t by (simp add: resolve_LOWES)
      then have "u = f" using lowes_fallback_unchanged(2)[OF n f(1)] by simp
      then show ?thesis using f n L by simp
    qed
  next
    case O
    then show ?thesis using r by (simp add: resolve_other)
  qed
qed

lemma home_shape:
  assumes r: "handleSearch_resolved store d = Some u"
  shows "u \<noteq> [] \<and> (startsWith u (js ''https://'')
      \<or> first_image d = Some u
        \<and> (store = js ''BESTBUY''
           \<or> store = js ''HOMEDEPOT'' \<and> find_image thd_prefix d = None))"
proof -
  consider (T) "store = js ''TARGET''" | (H) "store = js ''HOMEDEPOT''" | (B) "store = js ''BESTBUY''"
    | (O) "store \<noteq> js ''TARGET''" "store \<noteq> js ''HOMEDEPOT''" "store \<noteq> js ''BESTBUY''"
    by blast
  then show ?thesis
  proof cases
    case T
    then have t: "truthy (find_image target_prefix d)" using r by (auto simp: home_TARGET split: if_splits)
    then obtain f where f: "find_image target_prefix d = Some f" "f \<noteq> []" "startsWith f target_prefix"
      by (rule truthy_find)
    then have u: "u = f @ target_params" using r T t by (simp add: home_TARGET append_target_params_def)
    have "startsWith f (js ''https://'')" using f(3) prefixes_https(1) by (rule startsWith_trans)
    then have "startsWith u (js ''https://'')" unfolding u by (rule startsWith_append)
    then show ?thesis using u f(2) by simp
  next
    case H
    show ?thesis
    proof (cases "truthy (find_image thd_prefix d)")
      case True
      then obtain f where f: "find_image thd_prefix d = Some f" "f \<noteq> []" "startsWith f thd_prefix"
        by (rule truthy_find)
      then have u: "u = f" using r H True by (simp add: home_HOMEDEPOT)
      have "startsWith f (js ''https://'')" using f(3) prefixes_https(2) by (rule startsWith_trans)
      then show ?thesis using u f(2) by simp
    next
      case False
      then have n: "find_image thd_prefix d = None" using prefixes_nonempty(2) by (rule not_truthy_find)
      have t: "truthy (first_image d)" using r H False by (auto simp: home_HOMEDEPOT split: if_splits)
      then have "first_image d = Some u" using r H False by (simp add: home_HOMEDEPOT)
      then show ?thesis using t n H by (simp add: truthy_simps)
    qed
  next
    case B
    have t: "truthy (first_image d)" using r B by (auto simp: home_BESTBUY split: if_splits)
    then have "first_image d = Some u" using r B by (simp add: home_BESTBUY)
    then show ?thesis using t B by (simp add: truthy_simps)
  next
    case O
    then show ?thesis using r by (simp add: home_other)
  qed
qed

section \<open>The shape of a resolved URL\<close>

text \<open>
  Claim C1, as stated, fails: on a fallback path the first candidate of the first
  item is returned whatever its shape. For BESTBUY the candidate
  \<^verbatim>\<open>http://anything/z.png\<close> is resolved on both pages, and for HOMEDEPOT the
  relative \<^verbatim>\<open>/images/z.png\<close> is; neither starts with \<^verbatim>\<open>https://\<close>.
\<close>

theorem fallback_not_https_counterexample:
  "searchForImage_resolve (js ''BESTBUY'') (results_of [[js ''http://anything/z.png'']])
     = Some (js ''http://anything/z.png'')
   \<and> handleSearch_resolved (js ''BESTBUY'') (results_of [[js ''http://anything/z.png'']])
     = Some (js ''http://anything/z.png'')
   \<and> \<not> startsWith (js ''http://anything/z.png'') (js ''https://'')
   \<and> searchForImage_resolve (js ''HOMEDEPOT'') (results_of [[js ''/images/z.png'']])
     = Some (js ''/images/z.png'')
   \<and> \<not> startsWith (js ''/images/z.png'') (js ''https://'')"
  by (simp add: resolve_BESTBUY home_BESTBUY resolve_HOMEDEPOT single_result truthy_simps)
     (simp add: js_def startsWith_def thd_prefix_def)

text \<open>
  Claim C1, amended. A resolved URL is never empty, and it starts with \<^verbatim>\<open>https://\<close>
  unless it is the first candidate of the first item, returned as it is on a
  fallback path: for BESTBUY, or for HOMEDEPOT and LOWES (the latter on the CSV page
  only) when no first candidate has the preferred prefix. For TARGET it always
  starts with \<^verbatim>\<open>https://\<close>.
\<close>

theorem resolved_url_shape:
  "(searchForImage_resolve store d = Some u \<longrightarrow>
      u \<noteq> [] \<and> (startsWith u (js ''https://'')
        \<or> first_image d = Some u
          \<and> (store = js ''BESTBUY''
             \<or> store = js ''HOMEDEPOT'' \<and> find_image thd_prefix d = None
             \<or> store = js ''LOWES'' \<and> find_image lowes_prefix d = None)))
   \<and> (handleSearch_resolved store d = Some u \<longrightarrow>
      u \<noteq> [] \<and> (startsWith u (js ''https://'')
        \<or> first_image d = Some u
          \<and> (store = js ''BESTBUY''
             \<or> store = js ''HOMEDEPOT'' \<and> find_image thd_prefix d = None)))"
  using csv_shape[of store d u] home_shape[of store d u] by blast

theorem resolved_url_shape_witness:
  "startsWith (js ''https://target.scene7.com/y.jpg?qlt=65&fmt=webp&hei=1200&wid=1200'') (js ''https://'')
   \<and> first_image (results_of [[js ''http://anything/z.png'']]) = Some (js ''http://anything/z.png'')"
proof -
  let ?d = "results_of [[js ''https://target.scene7.com/y.jpg'']]"
  let ?u = "js ''https://target.scene7.com/y.jpg?qlt=65&fmt=webp&hei=1200&wid=1200''"
  let ?e = "results_of [[js ''http://anything/z.png'']]"
  let ?v = "js ''http://anything/z.png''"
  have a: "searchForImage_resolve (js ''TARGET'') ?d = Some ?u"
    by (simp add: resolve_TARGET single_result truthy_simps) (simp add: eval_defs)
  have b: "handleSearch_resolved (js ''BESTBUY'') ?e = Some ?v"
    by (simp add: home_BESTBUY single_result truthy_simps) (simp add: js_def)
  have c: "\<not> startsWith ?v (js ''https://'')" by (simp add: js_def startsWith_def)
  have t: "js ''TARGET'' \<noteq> js ''BESTBUY''" "js ''TARGET'' \<noteq> js ''HOMEDEPOT''"
    "js ''TARGET'' \<noteq> js ''LOWES''"
    by (simp_all add: js_def)
  from resolved_url_shape[of "js ''TARGET''" ?d ?u, THEN conjunct1, THEN mp, OF a] t
  have 1: "startsWith ?u (js ''https://'')" by simp
  from resolved_url_shape[of "js ''BESTBUY''" ?e ?v, THEN conjunct2, THEN mp, OF b] c
  have 2: "first_image ?e = Some ?v" by simp
  from 1 2 show ?thesis by simp
qed


section \<open>The size parameter of LOWES\<close>




section \<open>The contract of the image proxy\<close>

lemma ok_iff: "ok r \<longleftrightarrow> \<not> (status_code r < 200 \<or> 299 < status_code r)"
  by (auto simp: ok_def)

text \<open>
  Claim C8. The proxy answers 400 when the parameter \<^verbatim>\<open>url\<close> is missing (or empty),
  and 400 when the decoded target does not start with \<^verbatim>\<open>https://\<close>, in both cases
  without a request. Otherwise it requests the decoded target; when the origin
  answers with a status from 200 to 299 and its body can be read, the proxy returns
  that body with status 200, the content type of the origin (\<^verbatim>\<open>image/webp\<close> when the
  origin gives none) and \<^verbatim>\<open>public, max-age=86400\<close>, one day; when the request
  fails, the status is outside 200 to 299, or the body cannot be read, it answers
  500 with an error body.
\<close>

theorem proxy_contract:
  "(imageUrl = None \<or> imageUrl = Some [] \<longrightarrow>
      GET decode net imageUrl = (error_json (js ''Missing image URL parameter'') 400, []))
   \<and> (\<forall>u t. imageUrl = Some u \<and> u \<noteq> [] \<and> decode u = Inr t \<and> \<not> startsWith t (js ''https://'') \<longrightarrow>
      GET decode net imageUrl = (error_json (js ''Only HTTPS image URLs are supported'') 400, []))
   \<and> (\<forall>u t r b. imageUrl = Some u \<and> u \<noteq> [] \<and> decode u = Inr t \<and> startsWith t (js ''https://'')
         \<and> net t = Inr r \<and> ok r \<and> arrayBuffer r = Inr b \<longrightarrow>
      GET decode net imageUrl =
        (\<lparr>proxy_status = 200, proxy_body = ImageBuffer b,
          proxy_content_type = (case content_type r of None \<Rightarrow> js ''image/webp''
                                | Some c \<Rightarrow> if c = [] then js ''image/webp'' else c),
          proxy_cache_control = Some (js ''public, max-age=86400'')\<rparr>, [t]))
   \<and> (\<forall>u t. imageUrl = Some u \<and> u \<noteq> [] \<and> decode u = Inr t \<and> startsWith t (js ''https://'')
         \<and> ((\<exists>e. net t = Inl e)
            \<or> (\<exists>r. net t = Inr r
                 \<and> (status_code r < 200 \<or> 299 < status_code r \<or> (\<exists>e. arrayBuffer r = Inl e)))) \<longrightarrow>
      GET decode net imageUrl = (error_json (js ''Failed to fetch image'') 500, [t]))
   \<and> proxy_status (error_json m n) = n \<and> proxy_body (error_json m n) = ErrorJson m
   \<and> (86400 :: nat) = 24 * 60 * 60"
proof (intro conjI allI impI)
  assume "imageUrl = None \<or> imageUrl = Some []"
  then show "GET decode net imageUrl = (error_json (js ''Missing image URL parameter'') 400, [])"
    by (auto simp: GET_def)
next
  fix u t
  assume "imageUrl = Some u \<and> u \<noteq> [] \<and> decode u = Inr t \<and> \<not> startsWith t (js ''https://'')"
  then show "GET decode net imageUrl = (error_json (js ''Only HTTPS image URLs are supported'') 400, [])"
    by (simp add: GET_def)
next
  fix u t r b
  assume "imageUrl = Some u \<and> u \<noteq> [] \<and> decode u = Inr t \<and> startsWith t (js ''https://'')
         \<and> net t = Inr r \<and> ok r \<and> arrayBuffer r = Inr b"
  then show "GET decode net imageUrl =
        (\<lparr>proxy_status = 200, proxy_body = ImageBuffer b,
          proxy_content_type = (case content_type r of None \<Rightarrow> js ''image/webp''
                                | Some c \<Rightarrow> if c = [] then js ''image/webp'' else c),
          proxy_cache_control = Some (js ''public, max-age=86400'')\<rparr>, [t])"
    by (simp add: GET_def or_else_def)
next
  fix u t
  assume h: "imageUrl = Some u \<and> u \<noteq> [] \<and> decode u = Inr t \<and> startsWith t (js ''https://'')
         \<and> ((\<exists>e. net t = Inl e)
            \<or> (\<exists>r. net t = Inr r
                 \<and> (status_code r < 200 \<or> 299 < status_code r \<or> (\<exists>e. arrayBuffer r = Inl e))))"
  then consider (a) e where "net t = Inl e"
    | (b) r where "net t = Inr r" "\<not> ok r"
    | (c) r e where "net t = Inr r" "ok r" "arrayBuffer r = Inl e"
    using ok_iff by blast
  then show "GET decode net imageUrl = (error_json (js ''Failed to fetch image'') 500, [t])"
  proof cases
    case a
    then show ?thesis using h by (simp add: GET_def)
  next
    case b
    then show ?thesis using h by (simp add: GET_def)
  next
    case c
    then show ?thesis using h by (simp add: GET_def)
  qed
qed (simp_all add: error_json_def)

theorem proxy_contract_witness:
  "GET Inr (\<lambda>u. Inr \<lparr>status_code = 200, content_type = None, json = Inl [], blob = Inl [],
       arrayBuffer = Inr [1, 2, 3]\<rparr>) None
     = (error_json (js ''Missing image URL parameter'') 400, [])
   \<and> GET Inr (\<lambda>u. Inr \<lparr>status_code = 200, content_type = None, json = Inl [], blob = Inl [],
       arrayBuffer = Inr [1, 2, 3]\<rparr>) (Some (js ''http://host/img''))
     = (error_json (js ''Only HTTPS image URLs are supported'') 400, [])
   \<and> GET Inr (\<lambda>u. Inr \<lparr>status_code = 200, content_type = None, json = Inl [], blob = Inl [],
       arrayBuffer = Inr [1, 2, 3]\<rparr>) (Some (js ''https://host/img''))
     = (\<lparr>proxy_status = 200, proxy_body = ImageBuffer [1, 2, 3],
         proxy_content_type = js ''image/webp'',
         proxy_cache_control = Some (js ''public, max-age=86400'')\<rparr>, [js ''https://host/img''])
   \<and> GET Inr (\<lambda>u. Inr \<lparr>status_code = 404, content_type = None, json = Inl [], blob = Inl [],
       arrayBuffer = Inr [1, 2, 3]\<rparr>) (Some (js ''https://host/img''))
     = (error_json (js ''Failed to fetch image'') 500, [js ''https://host/img''])"
proof -
  let ?r = "\<lparr>status_code = 200, content_type = None, json = Inl [], blob = Inl [],
       arrayBuffer = Inr [1, 2, 3]\<rparr> :: response"
  let ?q = "\<lparr>status_code = 404, content_type = None, json = Inl [], blob = Inl [],
       arrayBuffer = Inr [1, 2, 3]\<rparr> :: response"
  let ?net = "(\<lambda>u. Inr ?r) :: network"
  let ?bad = "(\<lambda>u. Inr ?q) :: network"
  let ?dec = "Inr :: jsstring \<Rightarrow> jsstring result"
  have a: "(None :: jsstring option) = None \<or> (None :: jsstring option) = Some []" by simp
  have b: "Some (js ''http://host/img'') = Some (js ''http://host/img'') \<and> js ''http://host/img'' \<noteq> []
      \<and> ?dec (js ''http://host/img'') = Inr (js ''http://host/img'')
      \<and> \<not> startsWith (js ''http://host/img'') (js ''https://'')"
    by (simp add: js_def startsWith_def)
  have c: "Some (js ''https://host/img'') = Some (js ''https://host/img'') \<and> js ''https://host/img'' \<noteq> []
      \<and> ?dec (js ''https://host/img'') = Inr (js ''https://host/img'')
      \<and> startsWith (js ''https://host/img'') (js ''https://'')
      \<and> ?net (js ''https://host/img'') = Inr ?r \<and> ok ?r \<and> arrayBuffer ?r = Inr [1, 2, 3]"
    by (simp add: js_def startsWith_def ok_def)
  have d: "Some (js ''https://host/img'') = Some (js ''https://host/img'') \<and> js ''https://host/img'' \<noteq> []
      \<and> ?dec (js ''https://host/img'') = Inr (js ''https://host/img'')
      \<and> startsWith (js ''https://host/img'') (js ''https://'')
      \<and> ((\<exists>e. ?bad (js ''https://host/img'') = Inl e)
            \<or> (\<exists>r. ?bad (js ''https://host/img'') = Inr r
                 \<and> (status_code r < 200 \<or> 299 < status_code r \<or> (\<exists>e. arrayBuffer r = Inl e))))"
    by (simp add: js_def startsWith_def)
  note p1 = proxy_contract[of None ?dec ?net, THEN conjunct1, THEN mp, OF a]
  note p2 = proxy_contract[of "Some (js ''http://host/img'')" ?dec ?net, THEN conjunct2, THEN conjunct1,
      THEN spec, THEN spec, THEN mp, OF b]
  note p3 = proxy_contract[of "Some (js ''https://host/img'')" ?dec ?net, THEN conjunct2, THEN conjunct2,
      THEN conjunct1, THEN spec, THEN spec, THEN spec, THEN spec, THEN mp, OF c]
  note p4 = proxy_contract[of "Some (js ''https://host/img'')" ?dec ?bad, THEN conjunct2, THEN conjunct2,
      THEN conjunct2, THEN conjunct1, THEN spec, THEN spec, THEN mp, OF d]
  have p3': "GET ?dec ?net (Some (js ''https://host/img''))
     = (\<lparr>proxy_status = 200, proxy_body = ImageBuffer [1, 2, 3],
         proxy_content_type = js ''image/webp'',
         proxy_cache_control = Some (js ''public, max-age=86400'')\<rparr>, [js ''https://host/img''])"
    using p3 by simp
  show ?thesis by (intro conjI) (rule p1, rule p2, rule p3', rule p4)
qed

section \<open>Facts about the archive\<close>





lemma forceTrailingSlash_length: "length path \<le> length (forceTrailingSlash path)"
  by (simp add: forceTrailingSlash_def)

















section \<open>Facts about the run over the rows\<close>

lemma trim_nonempty_iff: "trim v \<noteq> [] \<longleftrightarrow> (\<exists>c\<in>set v. \<not> is_whitespace c)"
proof
  assume "trim v \<noteq> []"
  have "trim v = []" if "dropWhile is_whitespace v = []"
    unfolding trim_def that by simp
  with \<open>trim v \<noteq> []\<close> have "dropWhile is_whitespace v \<noteq> []" by blast
  then show "\<exists>c\<in>set v. \<not> is_whitespace c"
    using dropWhile_eq_Nil_conv[of is_whitespace v] by blast
next
  assume "\<exists>c\<in>set v. \<not> is_whitespace c"
  then have ne: "dropWhile is_whitespace v \<noteq> []" by (simp add: dropWhile_eq_Nil_conv)
  then have "\<not> is_whitespace (hd (dropWhile is_whitespace v))" by (rule hd_dropWhile)
  moreover have "hd (dropWhile is_whitespace v) \<in> set (rev (dropWhile is_whitespace v))"
    using ne by simp
  ultimately have "\<exists>c\<in>set (rev (dropWhile is_whitespace v)). \<not> is_whitespace c" by blast
  then have "dropWhile is_whitespace (rev (dropWhile is_whitespace v)) \<noteq> []"
    by (simp add: dropWhile_eq_Nil_conv)
  then show "trim v \<noteq> []" by (simp add: trim_def)
qed

lemma valid_row_iff:
  "valid_row c row \<longleftrightarrow> (\<exists>v. row c = Some v \<and> (\<exists>ch\<in>set v. \<not> is_whitespace ch))"
  by (cases "row c") (auto simp: valid_row_def trim_nonempty_iff)



lemma download_image_status: "processingStatus (download_image p net row u st) = processingStatus st"
  by (simp add: download_image_def Let_def split: sum.splits)

lemma download_image_processing: "isProcessing (download_image p net row u st) = isProcessing st"
  by (simp add: download_image_def Let_def split: sum.splits)


lemma process_row_total:
  "total (processingStatus (process_row p net apiKey cx store n i row ident st)) = total (processingStatus st)"
  by (simp add: process_row_def Let_def download_image_status split: prod.splits sum.splits option.splits)

lemma process_row_processing:
  "isProcessing (process_row p net apiKey cx store n i row ident st) = isProcessing st"
  by (simp add: process_row_def Let_def download_image_processing split: prod.splits sum.splits option.splits)

lemma process_rows_total:
  "process_rows p nets apiKey cx store n i rows st = (e, st')
     \<Longrightarrow> total (processingStatus st') = total (processingStatus st)"
proof (induction rows arbitrary: i st)
  case Nil
  then show ?case by simp
next
  case (Cons row rest)
  show ?case
  proof (cases "row (idColumn store)")
    case None
    then show ?thesis using Cons.prems by simp
  next
    case (Some v)
    then have "process_rows p nets apiKey cx store n (i + 1) rest
        (process_row p (nets i) apiKey cx store n i row (trim v) st) = (e, st')"
      using Cons.prems by simp
    then have "total (processingStatus st')
        = total (processingStatus (process_row p (nets i) apiKey cx store n i row (trim v) st))"
      by (rule Cons.IH)
    then show ?thesis by (simp add: process_row_total)
  qed
qed

lemma process_rows_processing:
  "process_rows p nets apiKey cx store n i rows st = (e, st')
     \<Longrightarrow> isProcessing st' = isProcessing st"
proof (induction rows arbitrary: i st)
  case Nil
  then show ?case by simp
next
  case (Cons row rest)
  show ?case
  proof (cases "row (idColumn store)")
    case None
    then show ?thesis using Cons.prems by simp
  next
    case (Some v)
    then have "process_rows p nets apiKey cx store n (i + 1) rest
        (process_row p (nets i) apiKey cx store n i row (trim v) st) = (e, st')"
      using Cons.prems by simp
    then have "isProcessing st'
        = isProcessing (process_row p (nets i) apiKey cx store n i row (trim v) st)"
      by (rule Cons.IH)
    then show ?thesis by (simp add: process_row_processing)
  qed
qed

lemma process_rows_valid:
  "\<forall>row\<in>set rows. valid_row (idColumn store) row
     \<Longrightarrow> fst (process_rows p nets apiKey cx store n i rows st) = None"
proof (induction rows arbitrary: i st)
  case Nil
  then show ?case by simp
next
  case (Cons row rest)
  then obtain v where "row (idColumn store) = Some v"
    by (auto simp: valid_row_def split: option.splits)
  then show ?case using Cons by simp
qed

lemma filter_empty: "(\<forall>row\<in>set rows. \<not> P row) \<Longrightarrow> filter P rows = []"
  by (induction rows) auto

lemma parse_complete_none_valid:
  assumes "\<forall>row\<in>set rows. \<not> valid_row (idColumn store) row"
  shows "parse_complete p nets apiKey cx store rows st =
     (Some (if idColumn store = [] then js ''No column name defined for store: '' @ store
            else js ''No valid '' @ idColumn store @ js '' values found in the CSV''), st)"
  using filter_empty[OF assms] by (simp add: parse_complete_def Let_def)

lemma parse_complete_total:
  assumes "parse_complete p nets apiKey cx store rows st = (e, st')"
    and "idColumn store \<noteq> []" and "\<exists>row\<in>set rows. valid_row (idColumn store) row"
  shows "total (processingStatus st') = length (filter (valid_row (idColumn store)) rows)"
proof -
  let ?valid = "filter (valid_row (idColumn store)) rows"
  let ?st1 = "st\<lparr>processingStatus := (processingStatus st)
                        \<lparr>total := length ?valid,
                         message := js ''Found '' @ num_str (length ?valid)
                           @ js '' items to process''\<rparr>,
                      zip_files := []\<rparr>"
  have ne: "?valid \<noteq> []" using assms(3) by (simp add: filter_empty_conv)
  obtain e2 st2 where r: "process_rows p nets apiKey cx store (length ?valid) 0 ?valid ?st1 = (e2, st2)"
    by (cases "process_rows p nets apiKey cx store (length ?valid) 0 ?valid ?st1")
  have t: "total (processingStatus st2) = length ?valid"
    using process_rows_total[OF r] by simp
  show ?thesis
    using assms(1,2) ne r t
    by (auto simp: parse_complete_def Let_def split: option.splits sum.splits)
qed

lemma processCSV_complete_iff:
  "status (processingStatus (processCSV p nets apiKey cx store (Some (ParseComplete rows)) st)) = Complete
     \<Longrightarrow> \<exists>st'. parse_complete p nets apiKey cx store rows
            (st\<lparr>isProcessing := True,
                processingStatus :=
                  \<lparr>current = 0, total = 0, currentItem = [], status = Processing,
                   message = js ''Parsing CSV file...'', downloadUrl = None\<rparr>\<rparr>) = (None, st')
          \<and> processCSV p nets apiKey cx store (Some (ParseComplete rows)) st = st'\<lparr>isProcessing := False\<rparr>"
  by (auto simp: processCSV_def Let_def error_status_def split: prod.splits option.splits)












section \<open>Names of entries and filtering of rows\<close>













text \<open>
  Claim C7. A row is kept exactly when its identifier column is present and holds a
  code unit that is not white space. When no row is kept (so when the column is
  missing from every row) the run ends in the state \<^verbatim>\<open>error\<close> with no request made and
  no entry added. When a row is kept, \<^verbatim>\<open>total\<close> is the number of kept rows, at the
  end of the \<^verbatim>\<open>try\<close> block and in the state \<^verbatim>\<open>complete\<close>.
\<close>

theorem invalid_rows_filtered:
  "(valid_row c row \<longleftrightarrow> (\<exists>v. row c = Some v \<and> (\<exists>ch\<in>set v. \<not> is_whitespace ch)))
   \<and> ((\<forall>row\<in>set rows. \<not> valid_row (idColumn store) row) \<longrightarrow>
        status (processingStatus (processCSV p nets apiKey cx store (Some (ParseComplete rows)) st)) = Error
      \<and> requests (processCSV p nets apiKey cx store (Some (ParseComplete rows)) st) = requests st
      \<and> zip_files (processCSV p nets apiKey cx store (Some (ParseComplete rows)) st) = zip_files st
      \<and> isProcessing (processCSV p nets apiKey cx store (Some (ParseComplete rows)) st) = False
      \<and> (idColumn store \<noteq> [] \<longrightarrow>
           message (processingStatus (processCSV p nets apiKey cx store (Some (ParseComplete rows)) st))
             = js ''Error: No valid '' @ idColumn store @ js '' values found in the CSV''))
   \<and> (\<forall>e st'. parse_complete p nets apiKey cx store rows st = (e, st') \<and> idColumn store \<noteq> []
         \<and> (\<exists>row\<in>set rows. valid_row (idColumn store) row) \<longrightarrow>
        total (processingStatus st') = length (filter (valid_row (idColumn store)) rows))
   \<and> (status (processingStatus (processCSV p nets apiKey cx store (Some (ParseComplete rows)) st))
        = Complete \<longrightarrow>
      total (processingStatus (processCSV p nets apiKey cx store (Some (ParseComplete rows)) st))
        = length (filter (valid_row (idColumn store)) rows))"
proof (intro conjI allI impI)
  show "valid_row c row \<longleftrightarrow> (\<exists>v. row c = Some v \<and> (\<exists>ch\<in>set v. \<not> is_whitespace ch))"
    by (rule valid_row_iff)
next
  assume h: "\<forall>row\<in>set rows. \<not> valid_row (idColumn store) row"
  note pc = parse_complete_none_valid[OF h]
  show "status (processingStatus (processCSV p nets apiKey cx store (Some (ParseComplete rows)) st)) = Error"
    by (simp add: processCSV_def Let_def pc error_status_def)
  show "requests (processCSV p nets apiKey cx store (Some (ParseComplete rows)) st) = requests st"
    by (simp add: processCSV_def Let_def pc)
  show "zip_files (processCSV p nets apiKey cx store (Some (ParseComplete rows)) st) = zip_files st"
    by (simp add: processCSV_def Let_def pc)
  show "isProcessing (processCSV p nets apiKey cx store (Some (ParseComplete rows)) st) = False"
    by (simp add: processCSV_def Let_def pc)
  assume "idColumn store \<noteq> []"
  then show "message (processingStatus (processCSV p nets apiKey cx store (Some (ParseComplete rows)) st))
             = js ''Error: No valid '' @ idColumn store @ js '' values found in the CSV''"
    by (simp add: processCSV_def Let_def pc error_status_def js_def)
next
  fix e st'
  assume "parse_complete p nets apiKey cx store rows st = (e, st') \<and> idColumn store \<noteq> []
         \<and> (\<exists>row\<in>set rows. valid_row (idColumn store) row)"
  then show "total (processingStatus st') = length (filter (valid_row (idColumn store)) rows)"
    using parse_complete_total by blast
next
  assume c: "status (processingStatus (processCSV p nets apiKey cx store (Some (ParseComplete rows)) st))
        = Complete"
  from processCSV_complete_iff[OF c] obtain st' where
    a: "parse_complete p nets apiKey cx store rows
            (st\<lparr>isProcessing := True,
                processingStatus :=
                  \<lparr>current = 0, total = 0, currentItem = [], status = Processing,
                   message = js ''Parsing CSV file...'', downloadUrl = None\<rparr>\<rparr>) = (None, st')"
    and b: "processCSV p nets apiKey cx store (Some (ParseComplete rows)) st = st'\<lparr>isProcessing := False\<rparr>"
    by blast
  have "idColumn store \<noteq> []" "filter (valid_row (idColumn store)) rows \<noteq> []"
    using a by (auto simp: parse_complete_def Let_def split: if_splits)
  then have "total (processingStatus st') = length (filter (valid_row (idColumn store)) rows)"
    using parse_complete_total[OF a] by (auto simp: filter_empty_conv)
  then show "total (processingStatus (processCSV p nets apiKey cx store (Some (ParseComplete rows)) st))
        = length (filter (valid_row (idColumn store)) rows)"
    unfolding b by simp
qed

section \<open>A row that fails\<close>




section \<open>The scenarios, evaluated\<close>

lemma idColumn_TARGET: "idColumn (js ''TARGET'') = js ''TCIN''"
  by (simp add: idColumn_def)

lemma example_ids:
  "row_a (js ''TCIN'') = Some (js ''1'')" "row_b (js ''TCIN'') = Some (js ''2'')"
  "row_c (js ''TCIN'') = Some (js ''3'')" "row_blank (js ''TCIN'') = Some (js ''  '')"
  "row_without_id (js ''TCIN'') = None" "row_slash (js ''TCIN'') = Some (js ''4'')"
  by (simp_all add: row_a_def row_b_def row_c_def row_blank_def row_without_id_def row_slash_def
      js_def)

lemma example_trim:
  "trim (js ''1'') = js ''1''" "trim (js ''2'') = js ''2''" "trim (js ''3'') = js ''3''"
  "trim (js ''  '') = []" "trim (js ''4'') = js ''4''"
  by (simp_all add: trim_def js_def is_whitespace_def)

lemma example_valid:
  "valid_row (js ''TCIN'') row_a" "valid_row (js ''TCIN'') row_b" "valid_row (js ''TCIN'') row_c"
  "\<not> valid_row (js ''TCIN'') row_blank" "\<not> valid_row (js ''TCIN'') row_without_id"
  "valid_row (js ''TCIN'') row_slash"
  by (simp_all add: valid_row_def example_ids example_trim) (simp_all add: js_def)

lemma example_filenames:
  "filename row_a = js ''A 1___M.webp''" "filename row_b = js ''B___.webp''"
  "filename row_c = js ''C___.webp''" "filename row_slash = js ''1/2 in___.webp''"
  by (simp_all add: filename_def row_a_def row_b_def row_c_def row_slash_def or_else_def
      replace_underscores_def js_def)

lemma example_search:
  "fst (searchForImage plain_platform good_network (js ''k'') (js ''c'') (js ''TARGET'')
         (csv_query (js ''TARGET'') ident) [])
     = Inr (Some (js ''https://target.scene7.com/p?qlt=65&fmt=webp&hei=1200&wid=1200''))"
proof -
  have a: "good_network (js ''https://www.googleapis.com/customsearch/v1?key='' @ js ''k''
                     @ js ''&cx='' @ js ''c'' @ js ''&q='' @ t) = Inr search_response" for t
    by (simp add: good_network_def startsWith_def js_def)
  have b: "searchForImage_resolve (js ''TARGET'') (results_of [[js ''https://target.scene7.com/p'']])
      = Some (js ''https://target.scene7.com/p?qlt=65&fmt=webp&hei=1200&wid=1200'')"
    by (simp add: resolve_TARGET single_result truthy_simps) (simp add: eval_defs)
  show ?thesis
    by (simp add: searchForImage_def Let_def plain_platform_def a search_response_def ok_def b)
qed

lemma example_search_down:
  "fst (searchForImage plain_platform down_network apiKey cx store query [])
     = Inl (js ''Failed to fetch'')"
  by (simp add: searchForImage_def Let_def plain_platform_def down_network_def)

lemma example_download:
  "encodeURIComponent plain_platform u = Inr u"
  "good_network (js ''/api/image-proxy?url='' @ u) = Inr image_response"
  "ok image_response"
  "blob image_response = Inr \<lparr>blob_type = js ''image/webp'', blob_bytes = [1]\<rparr>"
  "generateAsync plain_platform fs = Inr \<lparr>blob_type = js ''application/zip'', blob_bytes = []\<rparr>"
  "createObjectURL plain_platform b = js ''blob:archive''"
  by (simp_all add: plain_platform_def good_network_def startsWith_def js_def image_response_def ok_def)

lemma example_hyps:
  "idColumn (js ''TARGET'') \<noteq> []"
  "filter (valid_row (idColumn (js ''TARGET''))) [row_a, row_blank, row_b, row_without_id, row_c]
      = [row_a, row_b, row_c]"
  "row_a (idColumn (js ''TARGET'')) = Some (js ''1'')"
  "row_b (idColumn (js ''TARGET'')) = Some (js ''2'')"
  "row_c (idColumn (js ''TARGET'')) = Some (js ''3'')"
  "fst (searchForImage plain_platform (second_row_down 0)
         (js ''k'') (js ''c'') (js ''TARGET'') (csv_query (js ''TARGET'') (trim (js ''1''))) [])
     = Inr (Some (js ''https://target.scene7.com/p?qlt=65&fmt=webp&hei=1200&wid=1200''))"
  "encodeURIComponent plain_platform
     (js ''https://target.scene7.com/p?qlt=65&fmt=webp&hei=1200&wid=1200'')
     = Inr (js ''https://target.scene7.com/p?qlt=65&fmt=webp&hei=1200&wid=1200'')"
  "second_row_down 0
     (js ''/api/image-proxy?url=''
      @ js ''https://target.scene7.com/p?qlt=65&fmt=webp&hei=1200&wid=1200'') = Inr image_response"
  "ok image_response"
  "blob image_response = Inr \<lparr>blob_type = js ''image/webp'', blob_bytes = [1]\<rparr>"
  "fst (searchForImage plain_platform (second_row_down 1)
         (js ''k'') (js ''c'') (js ''TARGET'') (csv_query (js ''TARGET'') (trim (js ''2''))) [])
     = Inl (js ''Failed to fetch'')"
  "fst (searchForImage plain_platform (second_row_down 2)
         (js ''k'') (js ''c'') (js ''TARGET'') (csv_query (js ''TARGET'') (trim (js ''3''))) [])
     = Inr (Some (js ''https://target.scene7.com/p?qlt=65&fmt=webp&hei=1200&wid=1200''))"
  "second_row_down 2
     (js ''/api/image-proxy?url=''
      @ js ''https://target.scene7.com/p?qlt=65&fmt=webp&hei=1200&wid=1200'') = Inr image_response"
  "filename row_a \<noteq> filename row_c"
  "generateAsync plain_platform
     (zip_file (filename row_c) \<lparr>blob_type = js ''image/webp'', blob_bytes = [1]\<rparr>
        (zip_file (filename row_a) \<lparr>blob_type = js ''image/webp'', blob_bytes = [1]\<rparr> []))
     = Inr \<lparr>blob_type = js ''application/zip'', blob_bytes = []\<rparr>"
proof -
  show "idColumn (js ''TARGET'') \<noteq> []" by (simp add: idColumn_TARGET) (simp add: js_def)
  show "filter (valid_row (idColumn (js ''TARGET''))) [row_a, row_blank, row_b, row_without_id, row_c]
      = [row_a, row_b, row_c]"
    by (simp add: idColumn_TARGET example_valid)
  show "filename row_a \<noteq> filename row_c"
    by (simp add: example_filenames) (simp add: js_def)
qed (simp_all add: idColumn_TARGET example_ids example_search example_search_down example_download
    second_row_down_def)






theorem invalid_rows_filtered_witness:
  "status (processingStatus (processCSV plain_platform (\<lambda>i. good_network) (js ''k'') (js ''c'')
       (js ''TARGET'') (Some (ParseComplete [row_without_id, row_blank])) initial_state)) = Error
   \<and> requests (processCSV plain_platform (\<lambda>i. good_network) (js ''k'') (js ''c'')
       (js ''TARGET'') (Some (ParseComplete [row_without_id, row_blank])) initial_state) = []
   \<and> message (processingStatus (processCSV plain_platform (\<lambda>i. good_network) (js ''k'') (js ''c'')
       (js ''TARGET'') (Some (ParseComplete [row_without_id, row_blank])) initial_state))
       = js ''Error: No valid TCIN values found in the CSV''
   \<and> (\<not> valid_row (js ''TCIN'') row_blank \<longleftrightarrow>
        \<not> (\<exists>v. row_blank (js ''TCIN'') = Some v \<and> (\<exists>ch\<in>set v. \<not> is_whitespace ch)))"
proof -
  have h: "\<forall>row\<in>set [row_without_id, row_blank]. \<not> valid_row (idColumn (js ''TARGET'')) row"
    by (simp add: idColumn_TARGET example_valid)
  have 1: "idColumn (js ''TARGET'') \<noteq> []" by (rule example_hyps(1))
  note t = invalid_rows_filtered[of "js ''TCIN''" row_blank "[row_without_id, row_blank]" "js ''TARGET''"
      plain_platform "\<lambda>i. good_network" "js ''k''" "js ''c''" initial_state]
  note a = t[THEN conjunct2, THEN conjunct1, THEN mp, OF h]
  have m: "js ''Error: No valid '' @ idColumn (js ''TARGET'') @ js '' values found in the CSV''
      = js ''Error: No valid TCIN values found in the CSV''"
    unfolding idColumn_TARGET by (simp add: js_def)
  have r: "requests initial_state = []" by (simp add: initial_state_def)
  show ?thesis
    using a[THEN conjunct1] a[THEN conjunct2, THEN conjunct1]
      a[THEN conjunct2, THEN conjunct2, THEN conjunct2, THEN conjunct2, THEN mp, OF 1]
      t[THEN conjunct1]
    unfolding m r by (simp add: example_ids)
qed


section \<open>The second decoding of the proxy\<close>

lemmas decode_defs = decodeURIComponent_def js_def parse_hex_octet_def hex_value_def
  leading_ones_def continuation_def utf16_encode_def

lemma decode_units_plain:
  "0x25 \<notin> set pre \<Longrightarrow>
     decode_units [] 0 (pre @ rest) = map_option ((@) pre) (decode_units [] 0 rest)"
proof (induction pre)
  case Nil
  show ?case by (simp add: option.map_ident)
next
  case (Cons c pre)
  then have "c \<noteq> 0x25" "0x25 \<notin> set pre" by auto
  then show ?case using Cons.IH by (simp add: option.map_comp comp_def)
qed

lemma decode_plain: "0x25 \<notin> set u \<Longrightarrow> decodeURIComponent u = Inr u"
  using decode_units_plain[of u "[]"] by (simp add: decodeURIComponent_def)

lemma decode_one_escape:
  assumes "0x25 \<notin> set pre" and "0x25 \<notin> set post"
    and "parse_hex_octet h1 h2 = Some b" and "b < 0x80"
  shows "decodeURIComponent (pre @ [0x25, h1, h2] @ post) = Inr (pre @ [of_nat b] @ post)"
proof -
  have "decode_units [] 0 post = Some post"
    using decode_units_plain[OF assms(2), of "[]"] by simp
  then have "decode_units [] 0 ([0x25, h1, h2] @ post) = Some (of_nat b # post)"
    using assms(3,4) by (simp add: leading_ones_def)
  then have "decode_units [] 0 (pre @ [0x25, h1, h2] @ post) = Some (pre @ of_nat b # post)"
    using decode_units_plain[OF assms(1), of "[0x25, h1, h2] @ post"] by simp
  then show ?thesis by (simp add: decodeURIComponent_def)
qed

lemma GET_decoded:
  assumes "u \<noteq> []" and "decode u = Inr t"
  shows "snd (GET decode net (Some u)) = (if startsWith t (js ''https://'') then [t] else [])"
    and "\<not> startsWith t (js ''https://'') \<Longrightarrow>
      fst (GET decode net (Some u)) = error_json (js ''Only HTTPS image URLs are supported'') 400"
  using assms by (auto simp: GET_def split: sum.splits)

lemma GET_decode_fails:
  assumes "u \<noteq> []" and "decode u = Inl e"
  shows "GET decode net (Some u) = (error_json (js ''Failed to fetch image'') 500, [])"
  using assms by (simp add: GET_def)

lemma decode_examples:
  "decodeURIComponent (js ''https://host/img'') = Inr (js ''https://host/img'')"
  "decodeURIComponent (js ''https%3A%2F%2Fhost%2Fimg'') = Inr (js ''https://host/img'')"
  "decodeURIComponent (js ''https://host/a%2Fb.jpg'') = Inr (js ''https://host/a/b.jpg'')"
  "decodeURIComponent (js ''https://host/a%FF.jpg'') = Inl (js ''URI malformed'')"
  by (simp_all add: decode_defs)

lemma query_examples:
  "searchParams_value (js ''https%3A%2F%2Fhost%2Fimg'') = Some (js ''https://host/img'')"
  "searchParams_value (js ''https%253A%252F%252Fhost%252Fimg'') = Some (js ''https%3A%2F%2Fhost%2Fimg'')"
  "searchParams_value (js ''https%3A%2F%2Fhost%2Fa%252Fb.jpg'') = Some (js ''https://host/a%2Fb.jpg'')"
  "searchParams_value (js ''https%3A%2F%2Fhost%2Fa%25FF.jpg'') = Some (js ''https://host/a%FF.jpg'')"
  by (simp_all add: js_def parse_hex_octet_def hex_value_def)

lemma https_examples:
  "startsWith (js ''https://host/img'') (js ''https://'')"
  "startsWith (js ''https://host/a/b.jpg'') (js ''https://'')"
  "js ''https://host/a/b.jpg'' \<noteq> js ''https://host/a%2Fb.jpg''"
  "js ''https://host/img'' \<noteq> []" "js ''https%3A%2F%2Fhost%2Fimg'' \<noteq> []"
  "js ''https://host/a%2Fb.jpg'' \<noteq> []" "js ''https://host/a%FF.jpg'' \<noteq> []"
  by (simp_all add: js_def startsWith_def)

text \<open>
  Claim C10, as stated, fails: an escape in the target is not always decoded once
  more before the request. The target \<^verbatim>\<open>https://host/a%FF.jpg\<close>, sent encoded in the
  query string, comes back from \<^verbatim>\<open>searchParams.get\<close> with its escape \<^verbatim>\<open>%FF\<close>;
  \<^verbatim>\<open>decodeURIComponent\<close> throws on it, nothing is requested and the answer is 500.
\<close>

theorem undecodable_escape_counterexample:
  "searchParams_value (js ''https%3A%2F%2Fhost%2Fa%25FF.jpg'') = Some (js ''https://host/a%FF.jpg'')
   \<and> GET decodeURIComponent good_network (Some (js ''https://host/a%FF.jpg''))
       = (error_json (js ''Failed to fetch image'') 500, [])"
  using GET_decode_fails[where decode = decodeURIComponent, OF https_examples(7) decode_examples(4)] query_examples(4) by simp

text \<open>
  Claim C10, amended. The proxy applies \<^verbatim>\<open>decodeURIComponent\<close> to the value of the
  parameter, which the query string parser has decoded already. When the call
  returns, the HTTPS test and the request use its result: a target sent encoded once
  (or twice) is accepted, a target with no percent sign is requested as it is, and an
  escape of an ASCII character in the target is replaced by the character, so the
  URL requested can differ from the target the caller encoded. When the call throws,
  nothing is requested and the answer is 500.
\<close>

theorem proxy_double_decoding:
  "(\<forall>u t. u \<noteq> [] \<and> decodeURIComponent u = Inr t \<longrightarrow>
       snd (GET decodeURIComponent net (Some u)) = (if startsWith t (js ''https://'') then [t] else [])
     \<and> (\<not> startsWith t (js ''https://'') \<longrightarrow>
          fst (GET decodeURIComponent net (Some u))
            = error_json (js ''Only HTTPS image URLs are supported'') 400))
   \<and> (\<forall>u e. u \<noteq> [] \<and> decodeURIComponent u = Inl e \<longrightarrow>
       GET decodeURIComponent net (Some u) = (error_json (js ''Failed to fetch image'') 500, []))
   \<and> (\<forall>u. of_char CHR ''%'' \<notin> set u \<longrightarrow> decodeURIComponent u = Inr u)
   \<and> (\<forall>pre post h1 h2 b. of_char CHR ''%'' \<notin> set pre \<and> of_char CHR ''%'' \<notin> set post
         \<and> parse_hex_octet h1 h2 = Some b \<and> b < 0x80 \<longrightarrow>
       decodeURIComponent (pre @ [of_char CHR ''%'', h1, h2] @ post) = Inr (pre @ [of_nat b] @ post))
   \<and> searchParams_value (js ''https%3A%2F%2Fhost%2Fimg'') = Some (js ''https://host/img'')
   \<and> snd (GET decodeURIComponent net (Some (js ''https://host/img''))) = [js ''https://host/img'']
   \<and> snd (GET decodeURIComponent net (Some (js ''https%3A%2F%2Fhost%2Fimg''))) = [js ''https://host/img'']
   \<and> searchParams_value (js ''https%3A%2F%2Fhost%2Fa%252Fb.jpg'') = Some (js ''https://host/a%2Fb.jpg'')
   \<and> snd (GET decodeURIComponent net (Some (js ''https://host/a%2Fb.jpg''))) = [js ''https://host/a/b.jpg'']
   \<and> js ''https://host/a/b.jpg'' \<noteq> js ''https://host/a%2Fb.jpg''"
proof (intro conjI allI impI)
  fix u t assume h: "u \<noteq> [] \<and> decodeURIComponent u = Inr t"
  then show "snd (GET decodeURIComponent net (Some u)) = (if startsWith t (js ''https://'') then [t] else [])"
    using GET_decoded(1) by blast
  assume "\<not> startsWith t (js ''https://'')"
  then show "fst (GET decodeURIComponent net (Some u))
            = error_json (js ''Only HTTPS image URLs are supported'') 400"
    using h GET_decoded(2) by blast
next
  fix u e assume "u \<noteq> [] \<and> decodeURIComponent u = Inl e"
  then show "GET decodeURIComponent net (Some u) = (error_json (js ''Failed to fetch image'') 500, [])"
    using GET_decode_fails by blast
next
  fix u :: jsstring assume "of_char CHR ''%'' \<notin> set u"
  then show "decodeURIComponent u = Inr u" using decode_plain[of u] by simp
next
  fix pre post :: jsstring and h1 h2 b
  assume "of_char CHR ''%'' \<notin> set pre \<and> of_char CHR ''%'' \<notin> set post
         \<and> parse_hex_octet h1 h2 = Some b \<and> b < 0x80"
  then show "decodeURIComponent (pre @ [of_char CHR ''%'', h1, h2] @ post) = Inr (pre @ [of_nat b] @ post)"
    using decode_one_escape[of pre post h1 h2 b] by simp
next
  show "searchParams_value (js ''https%3A%2F%2Fhost%2Fimg'') = Some (js ''https://host/img'')"
    by (rule query_examples(1))
  show "snd (GET decodeURIComponent net (Some (js ''https://host/img''))) = [js ''https://host/img'']"
    using GET_decoded(1)[where decode = decodeURIComponent, OF https_examples(4) decode_examples(1)] https_examples(1) by simp
  show "snd (GET decodeURIComponent net (Some (js ''https%3A%2F%2Fhost%2Fimg''))) = [js ''https://host/img'']"
    using GET_decoded(1)[where decode = decodeURIComponent, OF https_examples(5) decode_examples(2)] https_examples(1) by simp
  show "searchParams_value (js ''https%3A%2F%2Fhost%2Fa%252Fb.jpg'') = Some (js ''https://host/a%2Fb.jpg'')"
    by (rule query_examples(3))
  show "snd (GET decodeURIComponent net (Some (js ''https://host/a%2Fb.jpg''))) = [js ''https://host/a/b.jpg'']"
    using GET_decoded(1)[where decode = decodeURIComponent, OF https_examples(6) decode_examples(3)] https_examples(2) by simp
  show "js ''https://host/a/b.jpg'' \<noteq> js ''https://host/a%2Fb.jpg''"
    by (rule https_examples(3))
qed

theorem proxy_double_decoding_witness:
  "snd (GET decodeURIComponent good_network (Some (js ''https://host/a%2Fb.jpg'')))
     = [js ''https://host/a/b.jpg'']
   \<and> GET decodeURIComponent good_network (Some (js ''https://host/a%FF.jpg''))
     = (error_json (js ''Failed to fetch image'') 500, [])
   \<and> decodeURIComponent (js ''https://host/img'') = Inr (js ''https://host/img'')
   \<and> decodeURIComponent (js ''https://host/a'' @ [of_char CHR ''%'', of_char CHR ''2'', of_char CHR ''F'']
        @ js ''b.jpg'') = Inr (js ''https://host/a'' @ [of_nat 47] @ js ''b.jpg'')"
proof -
  note t = proxy_double_decoding[of good_network]
  have a: "js ''https://host/a%2Fb.jpg'' \<noteq> []
      \<and> decodeURIComponent (js ''https://host/a%2Fb.jpg'') = Inr (js ''https://host/a/b.jpg'')"
    using https_examples(6) decode_examples(3) by simp
  have b: "js ''https://host/a%FF.jpg'' \<noteq> []
      \<and> decodeURIComponent (js ''https://host/a%FF.jpg'') = Inl (js ''URI malformed'')"
    using https_examples(7) decode_examples(4) by simp
  have c: "of_char CHR ''%'' \<notin> set (js ''https://host/img'')" by (simp add: js_def)
  have d: "of_char CHR ''%'' \<notin> set (js ''https://host/a'') \<and> of_char CHR ''%'' \<notin> set (js ''b.jpg'')
      \<and> parse_hex_octet (of_char CHR ''2'') (of_char CHR ''F'') = Some 47 \<and> (47::nat) < 0x80"
    by (simp add: js_def parse_hex_octet_def hex_value_def)
  have 1: "snd (GET decodeURIComponent good_network (Some (js ''https://host/a%2Fb.jpg'')))
     = [js ''https://host/a/b.jpg'']"
    using t[THEN conjunct1, THEN spec, THEN spec, THEN mp, OF a, THEN conjunct1] https_examples(2)
    by simp
  note 2 = t[THEN conjunct2, THEN conjunct1, THEN spec, THEN spec, THEN mp, OF b]
  note 3 = t[THEN conjunct2, THEN conjunct2, THEN conjunct1, THEN spec, THEN mp, OF c]
  note 4 = t[THEN conjunct2, THEN conjunct2, THEN conjunct2, THEN conjunct1, THEN spec, THEN spec,
      THEN spec, THEN spec, THEN spec, THEN mp, OF d]
  show ?thesis by (intro conjI) (rule 1, rule 2, rule 3, rule 4)
qed

end
